theory Spec2Isabelle
  imports Main
begin

section \<open>The chat view of the TechGenie front end\<close>

text \<open>
  The development embeds the component \<open>ChatView\<close> (React, TypeScript): the handler of
  the frames of a streamed answer (\<open>handleMessage\<close> inside \<open>sendMessage\<close>), the
  synchronisation with the session store (\<open>saveChatSession\<close>, \<open>updateChatSession\<close>),
  the workspace gate (\<open>openAction\<close>) and the restoring of a stored conversation
  (\<open>loadChatSession\<close>, \<open>handleViewHistoryFiles\<close>).

  React state, refs and the closure variables of the handlers are fields of one record,
  the external calls a function makes are appended to a trace, and what a collaborator
  answers is an argument of the function that awaits it.
\<close>

subsection \<open>JavaScript values\<close>

text \<open>
  An optional string is \<open>string option\<close> (\<open>None\<close> is \<open>undefined\<close>); in a condition
  it counts as true when it is present and not empty.
\<close>

definition truthy :: "string option \<Rightarrow> bool" where
  "truthy s = (case s of None \<Rightarrow> False | Some x \<Rightarrow> x \<noteq> [])"

definition str :: "string option \<Rightarrow> string" where
  "str s = (case s of None \<Rightarrow> [] | Some x \<Rightarrow> x)"

text \<open>
  A string is the sequence of the bytes of its UTF-8 form. \<open>String.prototype.trim\<close>
  removes white space and line terminators from both ends: TAB, LF, VT, FF, CR and the
  space, and U+00A0, U+1680, U+2000 to U+200A, U+2028, U+2029, U+202F, U+205F, U+3000 and
  U+FEFF, here with the bytes that encode them.
\<close>

definition whiteSpace :: "string list" where
  "whiteSpace =
     [[CHR 0x09], [CHR 0x0A], [CHR 0x0B], [CHR 0x0C], [CHR 0x0D], [CHR 0x20],
      [CHR 0xC2, CHR 0xA0], [CHR 0xE1, CHR 0x9A, CHR 0x80],
      [CHR 0xE2, CHR 0x80, CHR 0x80], [CHR 0xE2, CHR 0x80, CHR 0x81],
      [CHR 0xE2, CHR 0x80, CHR 0x82], [CHR 0xE2, CHR 0x80, CHR 0x83],
      [CHR 0xE2, CHR 0x80, CHR 0x84], [CHR 0xE2, CHR 0x80, CHR 0x85],
      [CHR 0xE2, CHR 0x80, CHR 0x86], [CHR 0xE2, CHR 0x80, CHR 0x87],
      [CHR 0xE2, CHR 0x80, CHR 0x88], [CHR 0xE2, CHR 0x80, CHR 0x89],
      [CHR 0xE2, CHR 0x80, CHR 0x8A], [CHR 0xE2, CHR 0x80, CHR 0xA8],
      [CHR 0xE2, CHR 0x80, CHR 0xA9], [CHR 0xE2, CHR 0x80, CHR 0xAF],
      [CHR 0xE2, CHR 0x81, CHR 0x9F], [CHR 0xE3, CHR 0x80, CHR 0x80],
      [CHR 0xEF, CHR 0xBB, CHR 0xBF]]"

definition startsWith :: "string \<Rightarrow> string \<Rightarrow> bool" where
  "startsWith s u = (u \<noteq> [] \<and> take (length u) s = u)"

function trimStart :: "string list \<Rightarrow> string \<Rightarrow> string" where
  "trimStart units s =
     (case List.find (startsWith s) units of
        None \<Rightarrow> s
      | Some u \<Rightarrow> trimStart units (drop (length u) s))"
  by pat_completeness auto
termination
proof (relation "measure (\<lambda>(units, s). length s)")
  show "wf (measure (\<lambda>(units, s). length s))" by simp
next
  fix units :: "string list" and s u :: string
  assume "List.find (startsWith s) units = Some u"
  then have "startsWith s u" by (auto simp: find_Some_iff)
  then have "u \<noteq> []" and "take (length u) s = u" by (simp_all add: startsWith_def)
  then have "s \<noteq> []" by auto
  then show "((units, drop (length u) s), (units, s)) \<in> measure (\<lambda>(units, s). length s)"
    using \<open>u \<noteq> []\<close> by simp
qed

definition trim :: "string \<Rightarrow> string" where
  "trim s = rev (trimStart (map rev whiteSpace) (rev (trimStart whiteSpace s)))"

text \<open>The decimal numeral of an array index, for the template \<open>`${reqId}-${index}`\<close>.\<close>

definition digitChar :: "nat \<Rightarrow> char" where
  "digitChar d = char_of (48 + d)"

function showNat :: "nat \<Rightarrow> string" where
  "showNat n = (if n < 10 then [digitChar n] else showNat (n div 10) @ [digitChar (n mod 10)])"
  by pat_completeness auto
termination
  by (relation "measure (\<lambda>n. n)") auto

subsection \<open>Data model\<close>

text \<open>
  A task (\<open>MESSAGE.Task\<close>), with the fields \<open>handleViewHistoryFiles\<close> writes. The
  fields \<open>resultMap\<close>, \<open>requestId\<close> and \<open>id\<close> of the source are \<open>taskResultMap\<close>,
  \<open>taskRequestId\<close> and \<open>taskId\<close> here. The result of a streamed task is opaque
  (\<open>Payload\<close>); the one of a task built from a stored file is \<open>FileResult\<close>, the
  object \<open>{fileInfo: [...], steps: []}\<close>, whose entries (\<open>taskFile\<close>) have the fields
  \<open>fileName\<close>, \<open>ossUrl\<close>, \<open>fileSize\<close> and \<open>domainUrl\<close>.
\<close>

record taskFile =
  tf_fileName :: string
  tf_ossUrl :: string
  tf_fileSize :: nat
  tf_domainUrl :: string

datatype taskResult = FileResult "taskFile list" "string list" | Payload string

record task =
  messageTime :: string
  messageType :: string
  taskResultMap :: taskResult
  taskRequestId :: string
  messageId :: string
  finish :: bool
  isFinal :: bool
  taskId :: string

datatype plan = Plan "string list"

text \<open>
  Modelled from the spec: what \<open>multiAgent\<close>, created as \<open>{tasks: []}\<close>, comes to
  hold is decided by the chat utilities, which are not among the sources at hand. The spec
  has a turn hold its ordered task list and an optional plan, and gives a task the
  identity of its explicit id if the payload supplies one, and otherwise of its turn id
  and position index. \<open>ma_tasks\<close> is the field \<open>tasks\<close>, each task with its identity,
  and \<open>ma_plan\<close> the plan.
\<close>

datatype taskKey = Explicit string | Positional string nat

record multiAgent =
  ma_tasks :: "(taskKey \<times> task) list"
  ma_plan :: "plan option"

text \<open>
  One turn (\<open>CHAT.ChatItem\<close>). \<open>savedResponseAll\<close> is the field \<open>responseAll\<close> that
  an item read back from the store may carry; a turn made by \<open>combineCurrentChat\<close> has
  none.
\<close>

record chatItem =
  query :: string
  files :: "string list"
  responseType :: string
  sessionId :: string
  requestId :: string
  loading :: bool
  forceStop :: bool
  tasks :: "task list"
  thought :: string
  response :: string
  taskStatus :: nat
  tip :: "string option"
  multiAgent :: multiAgent
  savedResponseAll :: "string option"

text \<open>
  Modelled from the spec: the type of \<open>resultMap.eventData\<close> is declared outside the
  sources at hand. The spec calls it the partial-results payload of a data frame: the
  tasks it contains, and a thought and a plan that count only when not empty.
\<close>

record eventData =
  ev_tasks :: "task list"
  ev_thought :: string
  ev_plan :: "plan option"

record resultMap =
  eventData :: "eventData option"

text \<open>A frame of the stream (\<open>MESSAGE.Answer\<close>), with the fields \<open>handleMessage\<close> reads.\<close>

record answer =
  finished :: bool
  resultMap :: "resultMap option"
  packageType :: string
  status :: "string option"
  reqId :: "string option"
  responseAll :: "string option"

record inputInfo =
  message :: string
  inputFiles :: "string list"
  deepThink :: bool
  outputStyle :: "string option"

text \<open>What \<open>handleTaskData\<close> returns: \<open>{taskList, plan}\<close>.\<close>

record taskData =
  td_taskList :: "task list"
  td_plan :: "plan option"

text \<open>The body of a create or update request to the session store.\<close>

record sessionData =
  sd_chatList :: "chatItem list"
  sd_sessionId :: string
  sd_chatTitle :: "string option"

record sseParams =
  p_sessionId :: string
  p_requestId :: string
  p_query :: string
  p_deepThink :: nat
  p_outputStyle :: "string option"

text \<open>The calls the view makes on its collaborators, in the order it makes them.\<close>

datatype effect =
    CreateSession string sessionData
  | UpdateSession string sessionData
  | Navigate string
  | ModalInfo
  | ScrollToTop
  | QuerySSE sseParams
  | ChangeActionView string

text \<open>
  A stream is what one call of \<open>sendMessage\<close> leaves behind: the handler
  \<open>handleMessage\<close> with the values it closed over when it was made (the state
  \<open>hasNavigated\<close> and \<open>chatTitle\<close> and the prop \<open>requestId\<close> of that render,
  \<open>deepThink\<close> of the input) and its variable \<open>currentChat\<close>.
\<close>

record stream =
  c_hasNavigated :: bool
  c_propRequestId :: "string option"
  c_chatTitle :: string
  c_deepThink :: bool
  currentChat :: chatItem

text \<open>
  A turn is an object that \<open>chatList.current\<close> and the variable \<open>currentChat\<close> of its
  handler both hold, so the list shows a write of the handler to its turn at once. An
  entry of the list is therefore either the object a handler holds now (\<open>Held\<close>, with
  the number of the stream; its value is the handler's \<open>currentChat\<close>) or an object no
  handler holds (\<open>Copy\<close>, with its value): a turn read back from the store, or one its
  handler has let go.
\<close>

datatype chatRef = Held nat | Copy chatItem

text \<open>
  The component: its state (\<open>viewLoading\<close> is the state \<open>loading\<close>), the refs
  \<open>chatList\<close> (\<open>chatRefs\<close>, the entries of \<open>chatList.current\<close>) and
  \<open>hasSavedSessionRef\<close>, the constant \<open>viewSessionId\<close> (\<open>sessionId\<close>), the handlers
  made so far, the callbacks handed to \<open>requestAnimationFrame\<close> that have not run yet,
  each with the number of its stream and the frame it closed over, and the trace of calls.
\<close>

record view =
  chatTitle :: string
  taskList :: "task list"
  chatRefs :: "chatRef list"
  plan :: "plan option"
  showAction :: bool
  viewLoading :: bool
  hasNavigated :: bool
  hasSavedSession :: bool
  hasSavedSessionRef :: bool
  viewSessionId :: string
  streams :: "stream list"
  rafQueue :: "(nat \<times> answer) list"
  trace :: "effect list"

text \<open>The turns \<open>chatList.current\<close> shows, given what the handlers hold.\<close>

definition resolve :: "stream list \<Rightarrow> chatRef \<Rightarrow> chatItem" where
  "resolve ss r = (case r of Held k \<Rightarrow> currentChat (ss ! k) | Copy c \<Rightarrow> c)"

definition chatList :: "view \<Rightarrow> chatItem list" where
  "chatList w = map (resolve (streams w)) (chatRefs w)"

text \<open>
  When handler \<open>k\<close> takes a new object for its turn, the entries that are the object it
  held keep the value \<open>old\<close> that object has.
\<close>

definition release :: "nat \<Rightarrow> chatItem \<Rightarrow> chatRef \<Rightarrow> chatRef" where
  "release k old r = (case r of Held j \<Rightarrow> (if j = k then Copy old else Held j) | Copy c \<Rightarrow> Copy c)"

subsection \<open>The workspace gate\<close>

definition RESULT_TYPES :: "string list" where
  "RESULT_TYPES = [''task_summary'', ''result'']"

definition openAction :: "task list \<Rightarrow> view \<Rightarrow> view" where
  "openAction ts w =
     (if length (filter (\<lambda>t. \<not> List.member RESULT_TYPES (messageType t)) ts) \<noteq> 0
      then w\<lparr>showAction := True\<rparr> else w)"

definition changeActionStatus :: "bool \<Rightarrow> view \<Rightarrow> view" where
  "changeActionStatus b w = w\<lparr>showAction := b\<rparr>"

subsection \<open>Submitting a query\<close>

definition combineCurrentChat :: "inputInfo \<Rightarrow> string \<Rightarrow> string \<Rightarrow> chatItem" where
  "combineCurrentChat info sid rid =
     \<lparr>query = message info, files = inputFiles info, responseType = ''txt'',
      sessionId = sid, requestId = rid, loading = True, forceStop = False, tasks = [],
      thought = [], response = [], taskStatus = 0, tip = Some ''task received'',
      multiAgent = \<lparr>ma_tasks = [], ma_plan = None\<rparr>, savedResponseAll = None\<rparr>"

text \<open>
  The tip of a new turn is a fixed sentence in Chinese (the task has been received and
  will be handled at once); it is abbreviated in \<open>combineCurrentChat\<close>.

  \<open>sendMessage\<close>, up to the call of \<open>querySSE\<close>. \<open>propRequestId\<close> is the prop of the
  render the call is made in and \<open>rid\<close> what \<open>getUniqId()\<close> returns. The new handler is
  the last element of \<open>streams\<close>, and the new entry of the chat list is the turn it holds.
\<close>

definition sendMessage :: "string option \<Rightarrow> string \<Rightarrow> inputInfo \<Rightarrow> view \<Rightarrow> view" where
  "sendMessage propRequestId rid info w =
     (if truthy propRequestId \<and> (message info = [] \<or> trim (message info) = []) then w
      else
        let cc = combineCurrentChat info (viewSessionId w) rid;
            w1 = w\<lparr>chatRefs := chatRefs w @ [Held (length (streams w))]\<rparr>;
            w2 = (if chatTitle w = [] then w1\<lparr>chatTitle := message info\<rparr> else w1);
            w3 = w2\<lparr>hasSavedSession := False, hasNavigated := False,
                    hasSavedSessionRef := False, viewLoading := True\<rparr>
        in w3\<lparr>streams := streams w3 @
                  [\<lparr>c_hasNavigated = hasNavigated w, c_propRequestId = propRequestId,
                    c_chatTitle = chatTitle w, c_deepThink = deepThink info,
                    currentChat = cc\<rparr>],
                trace := trace w3 @
                  [QuerySSE \<lparr>p_sessionId = viewSessionId w, p_requestId = rid,
                            p_query = message info,
                            p_deepThink = (if deepThink info then 1 else 0),
                            p_outputStyle = outputStyle info\<rparr>]\<rparr>)"

subsection \<open>Handling a frame\<close>

text \<open>\<open>chatTitle || chatList.current[0]?.query\<close>\<close>

definition titleOr :: "string \<Rightarrow> chatItem list \<Rightarrow> string option" where
  "titleOr t cl =
     (if t \<noteq> [] then Some t else (case cl of [] \<Rightarrow> None | c # _ \<Rightarrow> Some (query c)))"

text \<open>
  The first statement of \<open>handleMessage\<close>: the one-time create. The \<open>else if\<close> of the
  source only writes to the console. The body of the request holds the array
  \<open>chatList.current\<close> and is written out when the request is sent, which the HTTP client
  does from a promise callback, after the handler has returned: \<open>held\<close> is what the
  handlers hold by then.
\<close>

definition saveOnce :: "stream \<Rightarrow> stream list \<Rightarrow> answer \<Rightarrow> view \<Rightarrow> view" where
  "saveOnce st held frame w =
     (if truthy (reqId frame) \<and> \<not> c_hasNavigated st \<and> \<not> truthy (c_propRequestId st)
         \<and> \<not> hasSavedSessionRef w
      then w\<lparr>hasSavedSessionRef := True, hasNavigated := True, hasSavedSession := True,
             trace := trace w @
               [CreateSession (str (reqId frame))
                  \<lparr>sd_chatList = map (resolve held) (chatRefs w),
                   sd_sessionId = viewSessionId w,
                   sd_chatTitle = titleOr (c_chatTitle st) (chatList w)\<rparr>,
                Navigate (str (reqId frame))]\<rparr>
      else w)"

text \<open>
  What the handlers hold when \<open>handleMessage\<close> of stream \<open>k\<close> has returned: the quota
  branch writes \<open>loading\<close> into the object the handler holds
  (\<open>currentChat.loading = false\<close>).
\<close>

definition written :: "nat \<Rightarrow> answer \<Rightarrow> view \<Rightarrow> stream list" where
  "written k frame w =
     (if status frame = Some ''tokenUseUp''
      then (streams w)[k := (streams w ! k)\<lparr>currentChat :=
                              (currentChat (streams w ! k))\<lparr>loading := False\<rparr>\<rparr>]
      else streams w)"

text \<open>
  \<open>handleMessage\<close> of stream \<open>k\<close>, the part that runs when the frame is delivered.
  \<open>handleTaskData\<close> is a function of \<open>@/utils/chat\<close>, which is not among the sources
  at hand: it is an argument here.
\<close>

definition handleMessage ::
  "(chatItem \<Rightarrow> bool \<Rightarrow> multiAgent \<Rightarrow> taskData) \<Rightarrow> nat \<Rightarrow> answer \<Rightarrow> view \<Rightarrow> view" where
  "handleMessage handleTaskData k frame w =
     (let st = streams w ! k;
          w1 = saveOnce st (written k frame w) frame w
      in if status frame = Some ''tokenUseUp'' then
           let td = handleTaskData (currentChat st) (c_deepThink st) (multiAgent (currentChat st))
           in w1\<lparr>trace := trace w1 @ [ModalInfo],
                 streams := written k frame w,
                 viewLoading := False,
                 taskList := td_taskList td\<rparr>
         else if packageType frame \<noteq> ''heartbeat'' then
           w1\<lparr>rafQueue := rafQueue w1 @ [(k, frame)], trace := trace w1 @ [ScrollToTop]\<rparr>
         else w1)"

text \<open>
  The callback \<open>handleMessage\<close> hands to \<open>requestAnimationFrame\<close>. \<open>combineData\<close> is
  the other function of \<open>@/utils/chat\<close>, an argument as well; as the spec has the
  merger a pure fold, it returns a new turn and leaves the one it is given alone, so the
  handler holds a new object from then on. Both
  \<open>[...chatList.current.slice(0, -1), currentChat]\<close> and the \<open>splice\<close> at the end
  replace the last element of the list, or make the one-element list when it is empty.
\<close>

definition rafCallback ::
  "(eventData \<Rightarrow> chatItem \<Rightarrow> chatItem) \<Rightarrow> (chatItem \<Rightarrow> bool \<Rightarrow> multiAgent \<Rightarrow> taskData)
    \<Rightarrow> nat \<Rightarrow> answer \<Rightarrow> view \<Rightarrow> view" where
  "rafCallback combineData handleTaskData k frame w =
     (case resultMap frame of
        None \<Rightarrow> w
      | Some rm \<Rightarrow>
         (case eventData rm of
            None \<Rightarrow> w
          | Some ed \<Rightarrow>
             let st = streams w ! k;
                 cc1 = combineData ed (currentChat st);
                 td = handleTaskData cc1 (c_deepThink st) (multiAgent cc1);
                 w1 = openAction (td_taskList td)
                        (w\<lparr>taskList := td_taskList td, plan := td_plan td\<rparr>);
                 cc2 = (if finished frame then
                          (if status frame = Some ''success'' \<and> truthy (reqId frame)
                              \<and> truthy (responseAll frame)
                           then cc1\<lparr>loading := False, response := str (responseAll frame)\<rparr>
                           else cc1\<lparr>loading := False\<rparr>)
                        else cc1);
                 w2 = (if finished frame then
                          (if status frame = Some ''success'' \<and> truthy (reqId frame)
                              \<and> truthy (responseAll frame)
                           then w1\<lparr>viewLoading := False,
                                   trace := trace w1 @
                                     [UpdateSession (str (reqId frame))
                                        \<lparr>sd_chatList = butlast (chatList w1) @ [cc2],
                                         sd_sessionId = viewSessionId w1,
                                         sd_chatTitle = titleOr (c_chatTitle st) (chatList w1)\<rparr>]\<rparr>
                           else w1\<lparr>viewLoading := False\<rparr>)
                        else w1)
             in w2\<lparr>chatRefs := butlast (map (release k (currentChat st)) (chatRefs w2)) @ [Held k],
                   streams := (streams w2)[k := st\<lparr>currentChat := cc2\<rparr>]\<rparr>))"

subsection \<open>The session store and the stream's error callback\<close>

text \<open>
  A request either resolves with the body of the response or rejects with an error, of
  which the code reads \<open>error?.response?.status\<close>. An \<open>async\<close> function of the
  view returns \<open>Inl\<close> when it throws (its promise rejects) and otherwise the view it
  leaves and the lines it wrote to the console.
\<close>

datatype apiError = ApiError (responseStatus: "nat option")

datatype 'a outcome = Resolved 'a | Rejected apiError

datatype logEntry = ConsoleLog string | ConsoleError string

record createResponse =
  cr_success :: bool
  cr_message :: string

text \<open>\<open>await\<close>: the value of a promise that resolves, the exception of one that rejects.\<close>

definition await :: "'a outcome \<Rightarrow> apiError + 'a" where
  "await outcome = (case outcome of Resolved x \<Rightarrow> Inr x | Rejected error \<Rightarrow> Inl error)"

text \<open>
  \<open>saveChatSession\<close> and \<open>updateChatSession\<close>, with the outcome of the request each
  awaits: the \<open>Inr\<close> branch is the rest of the \<open>try\<close> block, the \<open>Inl\<close> branch the
  \<open>catch\<close> block. The request itself is in the trace of the caller
  (\<open>CreateSession\<close>, \<open>UpdateSession\<close>).
\<close>

definition saveChatSession ::
  "createResponse outcome \<Rightarrow> view \<Rightarrow> apiError + view \<times> logEntry list" where
  "saveChatSession outcome w =
     (case await outcome of
        Inr result \<Rightarrow>
          Inr (w, [ConsoleLog ''Saving chat session'',
                   (if \<not> cr_success result then ConsoleError ''Failed to save chat session''
                    else ConsoleLog ''Chat session saved successfully'')])
      | Inl error \<Rightarrow>
          Inr (w, [ConsoleLog ''Saving chat session'', ConsoleError ''Error saving chat session'']
                  @ (if responseStatus error = Some 409
                     then [ConsoleLog ''Session already exists''] else [])))"

definition updateChatSession ::
  "createResponse outcome \<Rightarrow> view \<Rightarrow> apiError + view \<times> logEntry list" where
  "updateChatSession outcome w =
     (case await outcome of
        Inr result \<Rightarrow>
          Inr (w, [ConsoleLog ''Updating chat session'',
                   (if \<not> cr_success result then ConsoleError ''Failed to update chat session''
                    else ConsoleLog ''Chat session updated successfully'')])
      | Inl error \<Rightarrow>
          Inr (w, [ConsoleLog ''Updating chat session'',
                   ConsoleError ''Error updating chat session'']))"

text \<open>\<open>handleError\<close>, the error callback given to \<open>querySSE\<close>: \<open>throw error\<close>.\<close>

definition handleError :: "apiError \<Rightarrow> view \<Rightarrow> apiError + view" where
  "handleError error w = Inl error"

subsection \<open>Restoring a conversation\<close>

record sessionPayload =
  savedChatList :: "chatItem list option"
  savedTitle :: "string option"

record sessionResponse =
  sr_success :: bool
  sr_message :: string
  sr_data :: "sessionPayload option"

text \<open>
  \<open>FileInfo\<close> and \<open>FileListResponse\<close> of the file service; \<open>fileRequestId\<close> is the
  field \<open>requestId\<close>.
\<close>

record FileInfo =
  ossUrl :: string
  downloadUrl :: string
  domainUrl :: string
  fileRequestId :: string
  fileName :: string

record FileListResponse =
  results :: "FileInfo list"
  totalSize :: nat

text \<open>
  The two maps over the stored turns: \<open>chat.response || chat.responseAll || ""\<close> in
  \<open>loadChatSession\<close>, and \<open>chat.response || chat.responseAll || chat.response\<close> in
  \<open>handleViewHistoryFiles\<close>.
\<close>

definition historyChat :: "chatItem \<Rightarrow> chatItem" where
  "historyChat chat =
     chat\<lparr>loading := False, tip := None,
          response := (if response chat \<noteq> [] then response chat
                       else if truthy (savedResponseAll chat) then str (savedResponseAll chat)
                       else [])\<rparr>"

definition historyFilesChat :: "chatItem \<Rightarrow> chatItem" where
  "historyFilesChat chat =
     chat\<lparr>loading := False, tip := None,
          response := (if response chat \<noteq> [] then response chat
                       else if truthy (savedResponseAll chat) then str (savedResponseAll chat)
                       else response chat)\<rparr>"

text \<open>
  What both functions do with a response that has \<open>success\<close> and \<open>data\<close>: an array
  counts as true also when empty, a title only when not empty. The turns of the new chat
  list are new objects.
\<close>

definition restoreSession :: "(chatItem \<Rightarrow> chatItem) \<Rightarrow> sessionResponse \<Rightarrow> view \<Rightarrow> view" where
  "restoreSession f result w =
     (if sr_success result \<and> sr_data result \<noteq> None then
        (case sr_data result of
           None \<Rightarrow> w
         | Some d \<Rightarrow>
            let w1 = (case savedChatList d of None \<Rightarrow> w | Some cl \<Rightarrow> w\<lparr>chatRefs := map Copy (map f cl)\<rparr>)
            in if truthy (savedTitle d) then w1\<lparr>chatTitle := str (savedTitle d)\<rparr> else w1)
      else w)"

text \<open>
  The task made of the file at position \<open>index\<close>; \<open>clock index\<close> is what
  \<open>new Date().toISOString()\<close> returns when that element is built.
\<close>

definition fileTask :: "string \<Rightarrow> (nat \<Rightarrow> string) \<Rightarrow> FileInfo \<Rightarrow> nat \<Rightarrow> task" where
  "fileTask rid clock file index =
     \<lparr>messageTime = clock index, messageType = ''file'',
      taskResultMap =
        FileResult [\<lparr>tf_fileName = fileName file, tf_ossUrl = ossUrl file, tf_fileSize = 0,
                     tf_domainUrl = domainUrl file\<rparr>] [],
      taskRequestId = rid, messageId = rid @ ''-'' @ showNat index,
      finish = True, isFinal = True, taskId = rid @ ''-'' @ showNat index\<rparr>"

text \<open>
  \<open>handleViewHistoryFiles\<close>, with the outcome of its own \<open>getSession\<close>; an error
  there is caught and written to the console. \<open>ChangeActionView\<close> stands for
  \<open>actionViewRef.current?.changeActionView(ActionViewItemEnum.file)\<close>.
\<close>

definition handleViewHistoryFiles ::
  "string \<Rightarrow> FileInfo list \<Rightarrow> sessionResponse outcome \<Rightarrow> (nat \<Rightarrow> string) \<Rightarrow> view \<Rightarrow> view" where
  "handleViewHistoryFiles rid fs sessionResult clock w =
     (let w0 = w\<lparr>taskList := []\<rparr>;
          w1 = (case sessionResult of
                  Rejected error \<Rightarrow> w0
                | Resolved result \<Rightarrow> restoreSession historyFilesChat result w0);
          ts = map (\<lambda>(file, index). fileTask rid clock file index) (zip fs [0..<length fs])
      in w1\<lparr>taskList := ts, showAction := True,
            trace := trace w1 @ [ChangeActionView ''file'']\<rparr>)"

text \<open>
  \<open>loadChatSession\<close>, run to its end with no other event in between: \<open>fromParam\<close> is
  \<open>searchParams.get('from')\<close>, \<open>sessionResult\<close> and \<open>fileResult\<close> the outcomes of
  \<open>getSession\<close> and \<open>getFileList\<close>, \<open>sessionResult2\<close> the outcome of the
  \<open>getSession\<close> inside \<open>handleViewHistoryFiles\<close>. Every error is caught.
\<close>

definition loadChatSession ::
  "string \<Rightarrow> string option \<Rightarrow> sessionResponse outcome \<Rightarrow> FileListResponse outcome
    \<Rightarrow> sessionResponse outcome \<Rightarrow> (nat \<Rightarrow> string) \<Rightarrow> view \<Rightarrow> view" where
  "loadChatSession rid fromParam sessionResult fileResult sessionResult2 clock w =
     (case sessionResult of
        Rejected error \<Rightarrow> w
      | Resolved result \<Rightarrow>
          if sr_success result \<and> sr_data result \<noteq> None then
            let w1 = restoreSession historyChat result w
            in if fromParam = Some ''history'' then
                 (case fileResult of
                    Rejected fileError \<Rightarrow> w1\<lparr>taskList := [], showAction := False\<rparr>
                  | Resolved fileResponse \<Rightarrow>
                      if length (results fileResponse) > 0
                      then handleViewHistoryFiles rid (results fileResponse) sessionResult2 clock w1
                      else w1\<lparr>taskList := [], showAction := False\<rparr>)
               else w1
          else w)"

subsection \<open>Events\<close>

text \<open>
  What happens to a mounted view: a query is submitted (with the prop \<open>requestId\<close> of
  that render and the fresh id), a stream delivers a frame to its handler, the browser
  runs the animation frame callbacks that are waiting, in the order they were handed
  over, or the operator opens or closes the workspace (\<open>changeActionStatus\<close>, reached
  from \<open>onClose\<close>, \<open>changeTask\<close>, \<open>changeFile\<close> and \<open>changePlan\<close>), or the prop
  \<open>requestId\<close> changes and the effect on it runs \<open>loadChatSession\<close> (\<open>Restore\<close>,
  with the new request id, the parameter \<open>from\<close> of the URL, the outcomes of the three
  requests and the clock). The view stays mounted over a change of the prop, and nothing
  ends a stream, so all of these can happen while a turn is streaming. A frame
  for a handler that was never made is no event of the program; the step leaves the
  state as it is, and so does a waiting callback with such a number.
\<close>

datatype event =
    Submit "string option" string inputInfo
  | Frame nat answer
  | AnimationFrame
  | ActionStatus bool
  | Restore string "string option" "sessionResponse outcome" "FileListResponse outcome"
      "sessionResponse outcome" "nat \<Rightarrow> string"

fun runCallbacks ::
  "(eventData \<Rightarrow> chatItem \<Rightarrow> chatItem) \<Rightarrow> (chatItem \<Rightarrow> bool \<Rightarrow> multiAgent \<Rightarrow> taskData)
    \<Rightarrow> (nat \<times> answer) list \<Rightarrow> view \<Rightarrow> view" where
  "runCallbacks cd htd [] w = w"
| "runCallbacks cd htd ((k, frame) # q) w =
     runCallbacks cd htd q (if k < length (streams w) then rafCallback cd htd k frame w else w)"

fun step ::
  "(eventData \<Rightarrow> chatItem \<Rightarrow> chatItem) \<Rightarrow> (chatItem \<Rightarrow> bool \<Rightarrow> multiAgent \<Rightarrow> taskData)
    \<Rightarrow> event \<Rightarrow> view \<Rightarrow> view" where
  "step cd htd (Submit p rid info) w = sendMessage p rid info w"
| "step cd htd (Frame k frame) w =
     (if k < length (streams w) then handleMessage htd k frame w else w)"
| "step cd htd AnimationFrame w = runCallbacks cd htd (rafQueue w) (w\<lparr>rafQueue := []\<rparr>)"
| "step cd htd (ActionStatus b) w = changeActionStatus b w"
| "step cd htd (Restore rid fromParam sessionResult fileResult sessionResult2 clock) w =
     loadChatSession rid fromParam sessionResult fileResult sessionResult2 clock w"

fun run ::
  "(eventData \<Rightarrow> chatItem \<Rightarrow> chatItem) \<Rightarrow> (chatItem \<Rightarrow> bool \<Rightarrow> multiAgent \<Rightarrow> taskData)
    \<Rightarrow> event list \<Rightarrow> view \<Rightarrow> view" where
  "run cd htd [] w = w"
| "run cd htd (e # es) w = run cd htd es (step cd htd e w)"

fun isSubmit :: "event \<Rightarrow> bool" where
  "isSubmit (Submit p rid info) = True"
| "isSubmit e = False"

fun isCreate :: "effect \<Rightarrow> bool" where
  "isCreate (CreateSession r d) = True"
| "isCreate e = False"

fun isUpdate :: "effect \<Rightarrow> bool" where
  "isUpdate (UpdateSession r d) = True"
| "isUpdate e = False"

text \<open>The view as \<open>useState\<close> and \<open>useRef\<close> initialise it.\<close>

definition initialView :: "string \<Rightarrow> view" where
  "initialView sid =
     \<lparr>chatTitle = [], taskList = [], chatRefs = [], plan = None, showAction = False,
      viewLoading = False, hasNavigated = False, hasSavedSession = False,
      hasSavedSessionRef = False, viewSessionId = sid, streams = [], rafQueue = [],
      trace = []\<rparr>"

subsection \<open>The functions of the chat utilities\<close>

text \<open>
  Modelled from the spec: \<open>combineData\<close> and \<open>handleTaskData\<close> (the module
  \<open>@/utils/chat\<close>) are not among the sources at hand. The spec has the merger of a
  data frame upsert each task of the payload into the task list by its identity (replaced
  where it stands if present, appended otherwise, in the order of arrival) and overwrite
  thought and plan only with values that are not empty, the plan as a whole; the
  extractor returns the task list in that order, and the plan. The identity of a task is
  its explicit id when it has one (an id that is not empty), and otherwise its turn id
  and its position index, which is its position in the payload that carries it.
\<close>

definition keyOf :: "nat \<Rightarrow> task \<Rightarrow> taskKey" where
  "keyOf index t =
     (if taskId t \<noteq> [] then Explicit (taskId t) else Positional (taskRequestId t) index)"

fun upsert :: "taskKey \<Rightarrow> task \<Rightarrow> (taskKey \<times> task) list \<Rightarrow> (taskKey \<times> task) list" where
  "upsert key t [] = [(key, t)]"
| "upsert key t (x # xs) = (if fst x = key then (key, t) # xs else x # upsert key t xs)"

fun upsertFrom :: "nat \<Rightarrow> task list \<Rightarrow> (taskKey \<times> task) list \<Rightarrow> (taskKey \<times> task) list" where
  "upsertFrom index [] ts = ts"
| "upsertFrom index (t # new) ts = upsertFrom (Suc index) new (upsert (keyOf index t) t ts)"

definition upsertAll :: "task list \<Rightarrow> (taskKey \<times> task) list \<Rightarrow> (taskKey \<times> task) list" where
  "upsertAll new ts = upsertFrom 0 new ts"

fun emptyPlan :: "plan \<Rightarrow> bool" where
  "emptyPlan (Plan stages) = (stages = [])"

definition combineData :: "eventData \<Rightarrow> chatItem \<Rightarrow> chatItem" where
  "combineData ed cc =
     cc\<lparr>thought := (if ev_thought ed \<noteq> [] then ev_thought ed else thought cc),
        multiAgent :=
          \<lparr>ma_tasks = upsertAll (ev_tasks ed) (ma_tasks (multiAgent cc)),
           ma_plan = (case ev_plan ed of
                        None \<Rightarrow> ma_plan (multiAgent cc)
                      | Some p \<Rightarrow> (if emptyPlan p then ma_plan (multiAgent cc) else Some p))\<rparr>\<rparr>"

definition handleTaskData :: "chatItem \<Rightarrow> bool \<Rightarrow> multiAgent \<Rightarrow> taskData" where
  "handleTaskData cc dt ma = \<lparr>td_taskList = map snd (ma_tasks ma), td_plan = ma_plan ma\<rparr>"

subsection \<open>Observations and a scenario\<close>

text \<open>The create calls made so far, and the turn id of a create call.\<close>

definition creates :: "view \<Rightarrow> effect list" where
  "creates w = filter isCreate (trace w)"

fun createdId :: "effect \<Rightarrow> string" where
  "createdId (CreateSession r d) = r"
| "createdId e = []"

text \<open>The create calls the guard still allows: one while the ref is not set, none after.\<close>

definition unsaved :: "view \<Rightarrow> nat" where
  "unsaved w = (if hasSavedSessionRef w then 0 else 1)"

text \<open>
  The scenario of the spec: the query \<open>hello\<close>, a heartbeat, a data frame with the turn
  id \<open>r1\<close> and the task \<open>A\<close>, and the terminal frame with the full text; then a frame
  with the quota-exhausted status and a second query.
\<close>

definition helloInfo :: inputInfo where
  "helloInfo = \<lparr>message = ''hello'', inputFiles = [], deepThink = False, outputStyle = None\<rparr>"

definition againInfo :: inputInfo where
  "againInfo = \<lparr>message = ''again'', inputFiles = [], deepThink = False, outputStyle = None\<rparr>"

definition taskA :: task where
  "taskA = \<lparr>messageTime = ''t1'', messageType = ''tool_call'', taskResultMap = Payload ''a'',
            taskRequestId = ''r1'', messageId = ''m1'', finish = False, isFinal = False,
            taskId = ''A''\<rparr>"

definition frame1 :: answer where
  "frame1 = \<lparr>finished = False, resultMap = None, packageType = ''heartbeat'', status = None,
             reqId = None, responseAll = None\<rparr>"

definition frame2 :: answer where
  "frame2 = \<lparr>finished = False,
             resultMap = Some \<lparr>eventData = Some \<lparr>ev_tasks = [taskA], ev_thought = [],
                                                    ev_plan = None\<rparr>\<rparr>,
             packageType = ''data'', status = None, reqId = Some ''r1'', responseAll = None\<rparr>"


definition quotaFrame :: answer where
  "quotaFrame = \<lparr>finished = False,
             resultMap = Some \<lparr>eventData = Some \<lparr>ev_tasks = [taskA], ev_thought = [],
                                                    ev_plan = None\<rparr>\<rparr>,
             packageType = ''data'', status = Some ''tokenUseUp'', reqId = Some ''r1'',
             responseAll = None\<rparr>"

definition started :: view where
  "started = step combineData handleTaskData (Submit None ''u1'' helloInfo) (initialView ''s1'')"

definition frame1r :: answer where
  "frame1r = frame1\<lparr>reqId := Some ''r1''\<rparr>"

definition frame3e :: answer where
  "frame3e = \<lparr>finished = True,
              resultMap = Some \<lparr>eventData = Some \<lparr>ev_tasks = [], ev_thought = [],
                                                     ev_plan = None\<rparr>\<rparr>,
              packageType = ''data'', status = Some ''success'', reqId = Some ''r1'',
              responseAll = Some ''Hello back''\<rparr>"

definition taskA2 :: task where
  "taskA2 = taskA\<lparr>taskResultMap := Payload ''a2'', finish := True\<rparr>"

definition taskB :: task where
  "taskB = taskA\<lparr>taskId := ''B'', messageId := ''m2''\<rparr>"

text \<open>A task with no explicit id.\<close>

definition taskN :: task where
  "taskN = taskA\<lparr>taskId := [], messageId := ''m3''\<rparr>"

definition summaryFrame :: answer where
  "summaryFrame = \<lparr>finished = False,
      resultMap = Some \<lparr>eventData = Some \<lparr>ev_tasks = [taskA\<lparr>messageType := ''task_summary''\<rparr>],
                                           ev_thought = [], ev_plan = None\<rparr>\<rparr>,
      packageType = ''data'', status = None, reqId = Some ''r1'', responseAll = None\<rparr>"

text \<open>The view after the first data frame was merged: the workspace is open.\<close>

definition shown :: view where
  "shown = run combineData handleTaskData [Frame 0 frame2, AnimationFrame] started"

text \<open>
  The view after the quota frame has ended the first turn and a second query was
  submitted: stream \<open>0\<close> is superseded by stream \<open>1\<close>. The quota frame carries the turn
  id, so the view has navigated to \<open>/r1\<close> and the second query is submitted with the
  prop set.
\<close>

definition superseded :: view where
  "superseded = run combineData handleTaskData
     [Submit None ''u1'' helloInfo, Frame 0 quotaFrame, Submit (Some ''r1'') ''u2'' againInfo]
     (initialView ''s1'')"

definition file1 :: FileInfo where
  "file1 = \<lparr>ossUrl = ''oss/a.md'', downloadUrl = ''dl/a.md'', domainUrl = ''dom/a.md'',
            fileRequestId = ''r1'', fileName = ''a.md''\<rparr>"

definition file2 :: FileInfo where
  "file2 = \<lparr>ossUrl = ''oss/b.md'', downloadUrl = ''dl/b.md'', domainUrl = ''dom/b.md'',
            fileRequestId = ''r1'', fileName = ''b.md''\<rparr>"

definition stored :: sessionResponse where
  "stored = \<lparr>sr_success = True, sr_message = ''ok'',
             sr_data = Some \<lparr>savedChatList = Some (chatList started), savedTitle = Some ''hello''\<rparr>\<rparr>"

subsection \<open>Notions the properties are stated with\<close>

text \<open>A query submitted in a render whose prop \<open>requestId\<close> is set.\<close>

fun urlSubmit :: "event \<Rightarrow> bool" where
  "urlSubmit (Submit p rid info) = truthy p"
| "urlSubmit e = True"

definition fromUrl :: "view \<Rightarrow> bool" where
  "fromUrl w = list_all (\<lambda>p. truthy p) (map c_propRequestId (streams w))"

text \<open>
  The operator closing the workspace, and the events that hide it: the operator closing
  it, and a conversation opened from the history whose session was read
  (\<open>restored\<close>) and whose file listing is empty or fails (\<open>noFiles\<close>).
\<close>

fun isClose :: "event \<Rightarrow> bool" where
  "isClose (ActionStatus b) = (\<not> b)"
| "isClose e = False"

definition restored :: "sessionResponse outcome \<Rightarrow> bool" where
  "restored sessionResult =
     (case sessionResult of
        Resolved result \<Rightarrow> sr_success result \<and> sr_data result \<noteq> None
      | Rejected error \<Rightarrow> False)"

definition noFiles :: "FileListResponse outcome \<Rightarrow> bool" where
  "noFiles fileResult =
     (case fileResult of Resolved fileResponse \<Rightarrow> results fileResponse = [] | Rejected error \<Rightarrow> True)"

fun hides :: "event \<Rightarrow> bool" where
  "hides (ActionStatus b) = (\<not> b)"
| "hides (Restore rid fromParam sessionResult fileResult sessionResult2 clock) =
     (restored sessionResult \<and> fromParam = Some ''history'' \<and> noFiles fileResult)"
| "hides e = False"

text \<open>
  What a turn has accumulated: every field a frame can add to. The task list and the
  plan that \<open>handleTaskData\<close> extracts are read from these.
\<close>

definition turnData :: "stream \<Rightarrow> task list \<times> multiAgent \<times> string \<times> string" where
  "turnData st = (tasks (currentChat st), multiAgent (currentChat st),
                  response (currentChat st), thought (currentChat st))"

definition tasksOf :: "stream \<Rightarrow> (taskKey \<times> task) list" where
  "tasksOf st = ma_tasks (multiAgent (currentChat st))"

text \<open>
  The payload of a frame (\<open>resultMap?.eventData\<close>), the condition under which the
  animation frame callback calls \<open>updateChatSession\<close>, and the value of \<open>currentChat\<close>
  when the callback of a frame with the payload \<open>ed\<close> ends.
\<close>

definition payload :: "answer \<Rightarrow> eventData option" where
  "payload f = (case resultMap f of None \<Rightarrow> None | Some rm \<Rightarrow> eventData rm)"

definition updates :: "answer \<Rightarrow> bool" where
  "updates f =
     (payload f \<noteq> None \<and> finished f \<and> status f = Some ''success'' \<and> truthy (reqId f)
      \<and> truthy (responseAll f))"

definition turnAfter ::
  "(eventData \<Rightarrow> chatItem \<Rightarrow> chatItem) \<Rightarrow> answer \<Rightarrow> eventData \<Rightarrow> chatItem \<Rightarrow> chatItem" where
  "turnAfter cd f ed cc =
     (if finished f then
        (if status f = Some ''success'' \<and> truthy (reqId f) \<and> truthy (responseAll f)
         then (cd ed cc)\<lparr>loading := False, response := str (responseAll f)\<rparr>
         else (cd ed cc)\<lparr>loading := False\<rparr>)
      else cd ed cc)"

text \<open>
  The handlers \<open>ss'\<close> continue the handlers \<open>ss\<close>: none is lost, and the identities
  of the tasks of each turn are those it had, in the same order, followed by new ones.
\<close>

definition grows :: "stream list \<Rightarrow> stream list \<Rightarrow> bool" where
  "grows ss ss' =
     (length ss \<le> length ss' \<and>
      (\<forall>j<length ss. \<exists>extra. map fst (tasksOf (ss' ! j)) = map fst (tasksOf (ss ! j)) @ extra))"

section \<open>Properties\<close>

subsection \<open>What the parts of a step leave alone\<close>

lemma chatList_fields [simp]:
  "chatList (w\<lparr>chatTitle := a\<rparr>) = chatList w"
  "chatList (w\<lparr>taskList := b\<rparr>) = chatList w"
  "chatList (w\<lparr>plan := c\<rparr>) = chatList w"
  "chatList (w\<lparr>showAction := d\<rparr>) = chatList w"
  "chatList (w\<lparr>viewLoading := e\<rparr>) = chatList w"
  "chatList (w\<lparr>hasNavigated := f\<rparr>) = chatList w"
  "chatList (w\<lparr>hasSavedSession := g\<rparr>) = chatList w"
  "chatList (w\<lparr>hasSavedSessionRef := h\<rparr>) = chatList w"
  "chatList (w\<lparr>rafQueue := q\<rparr>) = chatList w"
  "chatList (w\<lparr>trace := tr\<rparr>) = chatList w"
  by (simp_all add: chatList_def)

lemma saveOnce_fields [simp]:
  "streams (saveOnce st ss f w) = streams w"
  "rafQueue (saveOnce st ss f w) = rafQueue w"
  "chatRefs (saveOnce st ss f w) = chatRefs w"
  "chatList (saveOnce st ss f w) = chatList w"
  "taskList (saveOnce st ss f w) = taskList w"
  "plan (saveOnce st ss f w) = plan w"
  "showAction (saveOnce st ss f w) = showAction w"
  "viewLoading (saveOnce st ss f w) = viewLoading w"
  "viewSessionId (saveOnce st ss f w) = viewSessionId w"
  by (simp_all add: saveOnce_def)

lemma saveOnce_potential:
  "length (creates (saveOnce st ss f w)) + unsaved (saveOnce st ss f w) = length (creates w) + unsaved w"
  by (simp add: saveOnce_def creates_def unsaved_def)

lemma saveOnce_saved:
  "hasSavedSessionRef w \<Longrightarrow> saveOnce st ss f w = w"
  by (simp add: saveOnce_def)

lemma handleMessage_creates:
  "creates (handleMessage htd k f w) = creates (saveOnce (streams w ! k) (written k f w) f w)"
  by (simp add: handleMessage_def creates_def Let_def)

lemma handleMessage_ref:
  "hasSavedSessionRef (handleMessage htd k f w) =
     hasSavedSessionRef (saveOnce (streams w ! k) (written k f w) f w)"
  by (simp add: handleMessage_def Let_def)

lemma handleMessage_unsaved:
  "unsaved (handleMessage htd k f w) = unsaved (saveOnce (streams w ! k) (written k f w) f w)"
  by (simp add: unsaved_def handleMessage_ref)

lemma rafCallback_creates:
  "creates (rafCallback cd htd k f w) = creates w"
  by (simp add: rafCallback_def creates_def openAction_def Let_def split: option.splits)

lemma rafCallback_ref:
  "hasSavedSessionRef (rafCallback cd htd k f w) = hasSavedSessionRef w"
  by (simp add: rafCallback_def openAction_def Let_def split: option.splits)

lemma runCallbacks_creates:
  "creates (runCallbacks cd htd q w) = creates w"
  by (induction cd htd q w rule: runCallbacks.induct) (simp_all add: rafCallback_creates)

lemma runCallbacks_ref:
  "hasSavedSessionRef (runCallbacks cd htd q w) = hasSavedSessionRef w"
  by (induction cd htd q w rule: runCallbacks.induct) (simp_all add: rafCallback_ref)

lemma animationFrame_creates:
  "creates (step cd htd AnimationFrame w) = creates w"
proof -
  have "creates (w\<lparr>rafQueue := []\<rparr>) = creates w" by (simp add: creates_def)
  then show ?thesis by (simp add: runCallbacks_creates)
qed

lemma animationFrame_ref:
  "hasSavedSessionRef (step cd htd AnimationFrame w) = hasSavedSessionRef w"
  by (simp add: runCallbacks_ref)

lemma actionStatus_creates:
  "creates (changeActionStatus b w) = creates w"
  "hasSavedSessionRef (changeActionStatus b w) = hasSavedSessionRef w"
  by (simp_all add: changeActionStatus_def creates_def)

lemma restoreSession_fields [simp]:
  "taskList (restoreSession g result w) = taskList w"
  "showAction (restoreSession g result w) = showAction w"
  "trace (restoreSession g result w) = trace w"
  "streams (restoreSession g result w) = streams w"
  "hasSavedSessionRef (restoreSession g result w) = hasSavedSessionRef w"
  "rafQueue (restoreSession g result w) = rafQueue w"
  by (simp_all add: restoreSession_def Let_def split: option.splits)

lemma creates_fields [simp]:
  "creates (w\<lparr>taskList := b\<rparr>) = creates w"
  "creates (w\<lparr>showAction := d\<rparr>) = creates w"
  "creates (restoreSession g result w) = creates w"
  by (simp_all add: creates_def)

lemma handleViewHistoryFiles_fields:
  "streams (handleViewHistoryFiles rid fs sessionResult clock w) = streams w"
  "hasSavedSessionRef (handleViewHistoryFiles rid fs sessionResult clock w) = hasSavedSessionRef w"
  "creates (handleViewHistoryFiles rid fs sessionResult clock w) = creates w"
  by (simp_all add: handleViewHistoryFiles_def creates_def Let_def split: outcome.splits)

lemma loadChatSession_fields:
  "streams (loadChatSession rid fromParam sessionResult fileResult sessionResult2 clock w) = streams w"
  "hasSavedSessionRef (loadChatSession rid fromParam sessionResult fileResult sessionResult2 clock w)
     = hasSavedSessionRef w"
  "creates (loadChatSession rid fromParam sessionResult fileResult sessionResult2 clock w) = creates w"
  by (simp_all add: loadChatSession_def handleViewHistoryFiles_fields Let_def
        split: outcome.splits)

subsection \<open>The one-time create\<close>

text \<open>
  While no query is submitted, a step keeps the sum of the create calls made and the
  create calls the guard still allows.
\<close>

lemma step_potential:
  "\<not> isSubmit e \<Longrightarrow>
     length (creates (step cd htd e w)) + unsaved (step cd htd e w) = length (creates w) + unsaved w"
proof (cases e)
  case (Frame k f)
  show ?thesis
  proof (cases "k < length (streams w)")
    case True
    then show ?thesis
      using Frame saveOnce_potential [of "streams w ! k" "written k f w" f w]
      by (simp add: handleMessage_creates handleMessage_unsaved)
  next
    case False
    then show ?thesis using Frame by simp
  qed
next
  case AnimationFrame
  have "unsaved (step cd htd AnimationFrame w) = unsaved w"
    unfolding unsaved_def animationFrame_ref ..
  then show ?thesis
    using AnimationFrame animationFrame_creates [of cd htd w] by simp
next
  case (ActionStatus b)
  then show ?thesis by (simp add: actionStatus_creates unsaved_def)
next
  case (Restore rid fromParam sessionResult fileResult sessionResult2 clock)
  then show ?thesis by (simp add: loadChatSession_fields unsaved_def)
qed simp

lemma run_potential:
  "\<forall>e\<in>set es. \<not> isSubmit e \<Longrightarrow>
     length (creates (run cd htd es w)) + unsaved (run cd htd es w) = length (creates w) + unsaved w"
proof (induction es arbitrary: w)
  case Nil
  then show ?case by simp
next
  case (Cons e es)
  have "length (creates (run cd htd es (step cd htd e w))) + unsaved (run cd htd es (step cd htd e w))
        = length (creates (step cd htd e w)) + unsaved (step cd htd e w)"
    using Cons by simp
  also have "\<dots> = length (creates w) + unsaved w"
    using Cons.prems by (simp add: step_potential)
  finally show ?case by simp
qed

lemma step_saved:
  "\<not> isSubmit e \<Longrightarrow> hasSavedSessionRef w \<Longrightarrow>
     hasSavedSessionRef (step cd htd e w) \<and> creates (step cd htd e w) = creates w"
proof (cases e)
  case (Frame k f)
  assume "hasSavedSessionRef w"
  then show ?thesis
    using Frame by (simp add: handleMessage_creates handleMessage_ref saveOnce_saved)
next
  case AnimationFrame
  assume "hasSavedSessionRef w"
  then show ?thesis
    using AnimationFrame animationFrame_creates [of cd htd w] animationFrame_ref [of cd htd w]
    by simp
next
  case (ActionStatus b)
  assume "hasSavedSessionRef w"
  then show ?thesis using ActionStatus by (simp add: actionStatus_creates)
next
  case (Restore rid fromParam sessionResult fileResult sessionResult2 clock)
  assume "hasSavedSessionRef w"
  then show ?thesis using Restore by (simp add: loadChatSession_fields)
qed simp

lemma run_saved:
  "\<forall>e\<in>set es. \<not> isSubmit e \<Longrightarrow> hasSavedSessionRef w \<Longrightarrow>
     hasSavedSessionRef (run cd htd es w) \<and> creates (run cd htd es w) = creates w"
proof (induction es arbitrary: w)
  case Nil
  then show ?case by simp
next
  case (Cons e es)
  have s: "hasSavedSessionRef (step cd htd e w) \<and> creates (step cd htd e w) = creates w"
    using Cons.prems by (simp add: step_saved)
  have "hasSavedSessionRef (run cd htd es (step cd htd e w))
      \<and> creates (run cd htd es (step cd htd e w)) = creates (step cd htd e w)"
    using Cons.IH [of "step cd htd e w"] Cons.prems s by simp
  then show ?case using s by simp
qed

text \<open>
  Claim C1, as the code has it. Among the events of a view in which no new query is
  submitted (frames for any of its handlers, animation frames, the operator opening or
  closing the workspace), at most one create call is made, and none once the ref
  \<open>hasSavedSessionRef\<close> is set. When two frames with the same turn id \<open>r\<close> reach a
  handler that may create, one after the other, exactly one create call is made, for
  \<open>r\<close>, at the first of them: the ref is set in the step that makes the check, before the
  call has an outcome, so the second frame finds it set.
\<close>

theorem create_once_per_submission:
  assumes "\<forall>e\<in>set es. \<not> isSubmit e"
  shows "length (creates (run cd htd es w)) \<le> Suc (length (creates w))
    \<and> (hasSavedSessionRef w \<longrightarrow> creates (run cd htd es w) = creates w)
    \<and> (\<forall>k r f1 f2 rest.
          es = Frame k f1 # Frame k f2 # rest \<and> k < length (streams w)
          \<and> reqId f1 = Some r \<and> reqId f2 = Some r \<and> r \<noteq> []
          \<and> \<not> c_hasNavigated (streams w ! k) \<and> \<not> truthy (c_propRequestId (streams w ! k))
          \<and> \<not> hasSavedSessionRef w
        \<longrightarrow> map createdId (creates (run cd htd es w)) = map createdId (creates w) @ [r]
            \<and> hasSavedSessionRef (step cd htd (Frame k f1) w))"
proof (intro conjI allI impI)
  show "length (creates (run cd htd es w)) \<le> Suc (length (creates w))"
    using run_potential [OF assms, of cd htd w] by (simp add: unsaved_def split: if_splits)
next
  assume "hasSavedSessionRef w"
  then show "creates (run cd htd es w) = creates w"
    using run_saved [OF assms] by simp
next
  fix k r f1 f2 rest
  assume h: "es = Frame k f1 # Frame k f2 # rest \<and> k < length (streams w)
          \<and> reqId f1 = Some r \<and> reqId f2 = Some r \<and> r \<noteq> []
          \<and> \<not> c_hasNavigated (streams w ! k) \<and> \<not> truthy (c_propRequestId (streams w ! k))
          \<and> \<not> hasSavedSessionRef w"
  let ?w1 = "step cd htd (Frame k f1) w"
  have ref: "hasSavedSessionRef ?w1"
    using h by (simp add: handleMessage_ref saveOnce_def truthy_def)
  have c1: "creates ?w1 = creates w @
                [CreateSession r
                   \<lparr>sd_chatList = map (resolve (written k f1 w)) (chatRefs w),
                    sd_sessionId = viewSessionId w,
                    sd_chatTitle = titleOr (c_chatTitle (streams w ! k)) (chatList w)\<rparr>]"
    using h by (simp add: handleMessage_creates) (simp add: saveOnce_def creates_def truthy_def str_def)
  have rest: "\<forall>e\<in>set (Frame k f2 # rest). \<not> isSubmit e"
    using assms h by simp
  have "creates (run cd htd (Frame k f2 # rest) ?w1) = creates ?w1"
    using run_saved [OF rest ref] by simp
  then show "map createdId (creates (run cd htd es w)) = map createdId (creates w) @ [r]"
    using h c1 by simp
  show "hasSavedSessionRef (step cd htd (Frame k f1) w)" by (rule ref)
qed

text \<open>
  The scenario: after \<open>hello\<close> is submitted, the data frame with the turn id \<open>r1\<close>
  arrives twice before an animation frame.
\<close>

theorem create_once_per_submission_witness:
  "0 < length (streams started) \<and> reqId frame2 = Some ''r1''
   \<and> \<not> c_hasNavigated (streams started ! 0) \<and> \<not> truthy (c_propRequestId (streams started ! 0))
   \<and> \<not> hasSavedSessionRef started
   \<and> map createdId (creates (run combineData handleTaskData
         [Frame 0 frame2, Frame 0 frame2, AnimationFrame] started))
       = map createdId (creates started) @ [''r1'']"
proof -
  have h: "\<forall>e\<in>set [Frame 0 frame2, Frame 0 frame2, AnimationFrame]. \<not> isSubmit e"
    by simp
  have c: "0 < length (streams started) \<and> reqId frame2 = Some ''r1''
      \<and> \<not> c_hasNavigated (streams started ! 0) \<and> \<not> truthy (c_propRequestId (streams started ! 0))
      \<and> \<not> hasSavedSessionRef started"
    by code_simp
  show ?thesis
    using create_once_per_submission [OF h, of combineData handleTaskData started] c by blast
qed

text \<open>
  Claim C1 as it is stated, for every turn id without the restriction to one submission,
  fails: \<open>sendMessage\<close> clears the ref, and the handler of the earlier stream still holds
  the values of its own render (\<open>hasNavigated\<close> false, no prop \<open>requestId\<close>). After the
  quota frame has ended the first turn and a second query was submitted, a late frame of
  the first stream makes a second create call for \<open>r1\<close>.
\<close>

theorem create_twice_for_one_turn:
  "map createdId
     (creates (run combineData handleTaskData
        [Submit None ''u1'' helloInfo, Frame 0 frame2, Frame 0 quotaFrame,
         Submit (Some ''r1'') ''u2'' againInfo, Frame 0 frame2] (initialView ''s1'')))
   = [''r1'', ''r1'']"
  by code_simp


subsection \<open>What a frame and its callback change\<close>

lemma map_update_same:
  "k < length xs \<Longrightarrow> f y = f (xs ! k) \<Longrightarrow> map f (xs[k := y]) = map f xs"
  by (simp add: map_update list_update_same_conv)

lemma handleMessage_streams:
  "streams (handleMessage htd k f w) = streams w
   \<or> streams (handleMessage htd k f w) =
       (streams w)[k := (streams w ! k)\<lparr>currentChat := (currentChat (streams w ! k))\<lparr>loading := False\<rparr>\<rparr>]"
  by (simp add: handleMessage_def written_def Let_def)

lemma handleMessage_captured:
  "k < length (streams w) \<Longrightarrow>
     map c_propRequestId (streams (handleMessage htd k f w)) = map c_propRequestId (streams w)"
  using handleMessage_streams [of htd k f w] by (auto simp: map_update_same)

lemma rafCallback_streams_eq:
  "resultMap f = Some rm \<Longrightarrow> eventData rm = Some ed \<Longrightarrow>
     streams (rafCallback cd htd k f w) =
       (streams w)[k := (streams w ! k)\<lparr>currentChat := turnAfter cd f ed (currentChat (streams w ! k))\<rparr>]"
  by (simp add: rafCallback_def turnAfter_def openAction_def Let_def)

lemma rafCallback_idle:
  "resultMap f = None \<or> (\<exists>rm. resultMap f = Some rm \<and> eventData rm = None) \<Longrightarrow>
     rafCallback cd htd k f w = w"
  by (auto simp: rafCallback_def)

lemma payload_Some:
  "payload f = Some ed \<Longrightarrow> \<exists>rm. resultMap f = Some rm \<and> eventData rm = Some ed"
  by (simp add: payload_def split: option.splits)

lemma rafCallback_streams:
  "\<exists>cc. streams (rafCallback cd htd k f w) = (streams w)[k := (streams w ! k)\<lparr>currentChat := cc\<rparr>]"
proof (cases "resultMap f")
  case None
  then have "rafCallback cd htd k f w = w" by (simp add: rafCallback_idle)
  then show ?thesis
    by (intro exI [of _ "currentChat (streams w ! k)"]) simp
next
  case (Some rm)
  show ?thesis
  proof (cases "eventData rm")
    case None
    then have "rafCallback cd htd k f w = w" using Some by (simp add: rafCallback_idle)
    then show ?thesis
      by (intro exI [of _ "currentChat (streams w ! k)"]) simp
  next
    case (Some ed)
    then show ?thesis
      using rafCallback_streams_eq [OF \<open>resultMap f = Some rm\<close> Some, of cd htd k w] by blast
  qed
qed

lemma rafCallback_captured:
  "k < length (streams w) \<Longrightarrow>
     map c_propRequestId (streams (rafCallback cd htd k f w)) = map c_propRequestId (streams w)"
  using rafCallback_streams [of cd htd k f w] by (auto simp: map_update_same)

lemma runCallbacks_captured:
  "map c_propRequestId (streams (runCallbacks cd htd q w)) = map c_propRequestId (streams w)"
proof (induction cd htd q w rule: runCallbacks.induct)
  case (1 cd htd w)
  then show ?case by simp
next
  case (2 cd htd k frame q w)
  show ?case
  proof (cases "k < length (streams w)")
    case True
    then show ?thesis using 2 by (simp add: rafCallback_captured)
  next
    case False
    then show ?thesis using 2 by simp
  qed
qed

lemma rafCallback_fields:
  assumes "resultMap f = Some rm" and "eventData rm = Some ed"
  shows "taskList (rafCallback cd htd k f w) =
           td_taskList (htd (cd ed (currentChat (streams w ! k))) (c_deepThink (streams w ! k))
                            (multiAgent (cd ed (currentChat (streams w ! k)))))"
    and "plan (rafCallback cd htd k f w) =
           td_plan (htd (cd ed (currentChat (streams w ! k))) (c_deepThink (streams w ! k))
                        (multiAgent (cd ed (currentChat (streams w ! k)))))"
    and "viewLoading (rafCallback cd htd k f w) = (viewLoading w \<and> \<not> finished f)"
    and "chatRefs (rafCallback cd htd k f w) =
           butlast (map (release k (currentChat (streams w ! k))) (chatRefs w)) @ [Held k]"
  using assms by (simp_all add: rafCallback_def openAction_def Let_def)

text \<open>
  The entries of the object a handler lets go show the value the object had; the other
  entries show what they showed.
\<close>

lemma resolve_release:
  "k < length ss \<Longrightarrow>
     resolve (ss[k := st]) (release k (currentChat (ss ! k)) r) = resolve ss r"
  by (cases r) (simp_all add: resolve_def release_def)

lemma resolve_Held:
  "k < length ss \<Longrightarrow> resolve (ss[k := st]) (Held k) = currentChat st"
  by (simp add: resolve_def)

lemma rafCallback_chatList:
  assumes "resultMap f = Some rm" and "eventData rm = Some ed" and "k < length (streams w)"
  shows "chatList (rafCallback cd htd k f w) =
           butlast (chatList w) @ [turnAfter cd f ed (currentChat (streams w ! k))]"
proof -
  let ?st = "(streams w ! k)\<lparr>currentChat := turnAfter cd f ed (currentChat (streams w ! k))\<rparr>"
  have "chatList (rafCallback cd htd k f w) =
      map (resolve ((streams w)[k := ?st]))
        (butlast (map (release k (currentChat (streams w ! k))) (chatRefs w)) @ [Held k])"
    unfolding chatList_def rafCallback_streams_eq [OF assms(1,2)] rafCallback_fields [OF assms(1,2)] ..
  also have "\<dots> = butlast (map (resolve ((streams w)[k := ?st]))
        (map (release k (currentChat (streams w ! k))) (chatRefs w))) @ [currentChat ?st]"
    using assms(3) by (simp add: map_butlast resolve_Held)
  also have "map (resolve ((streams w)[k := ?st]))
        (map (release k (currentChat (streams w ! k))) (chatRefs w)) = chatList w"
    using assms(3) by (simp add: chatList_def resolve_release)
  finally show ?thesis by simp
qed

lemma rafCallback_trace:
  assumes "resultMap f = Some rm" and "eventData rm = Some ed"
  shows "trace (rafCallback cd htd k f w) =
     trace w @
       (if finished f \<and> status f = Some ''success'' \<and> truthy (reqId f) \<and> truthy (responseAll f)
        then [UpdateSession (str (reqId f))
                \<lparr>sd_chatList = butlast (chatList w) @ [turnAfter cd f ed (currentChat (streams w ! k))],
                 sd_sessionId = viewSessionId w,
                 sd_chatTitle = titleOr (c_chatTitle (streams w ! k)) (chatList w)\<rparr>]
        else [])"
  using assms by (simp add: rafCallback_def turnAfter_def openAction_def Let_def)

lemma handleMessage_data:
  assumes "status f \<noteq> Some ''tokenUseUp''" and "packageType f \<noteq> ''heartbeat''"
  shows "handleMessage htd k f w =
     (saveOnce (streams w ! k) (streams w) f w)
       \<lparr>rafQueue := rafQueue w @ [(k, f)],
        trace := trace (saveOnce (streams w ! k) (streams w) f w) @ [ScrollToTop]\<rparr>"
  using assms by (simp add: handleMessage_def written_def Let_def)


text \<open>A data frame and the animation frame after it, when no callback was waiting.\<close>

lemma frame_then_animation:
  assumes "k < length (streams w)" and "rafQueue w = []"
    and "status f \<noteq> Some ''tokenUseUp''" and "packageType f \<noteq> ''heartbeat''"
  shows "run cd htd [Frame k f, AnimationFrame] w =
      rafCallback cd htd k f
        ((saveOnce (streams w ! k) (streams w) f w)
           \<lparr>trace := trace (saveOnce (streams w ! k) (streams w) f w) @ [ScrollToTop],
            rafQueue := []\<rparr>)"
  using assms by (simp add: handleMessage_data)

lemma handleMessage_showAction:
  "showAction (handleMessage htd k f w) = showAction w"
  by (simp add: handleMessage_def Let_def)

lemma openAction_showAction:
  "showAction (openAction ts w) =
     (showAction w \<or> (\<exists>t\<in>set ts. messageType t \<noteq> ''task_summary'' \<and> messageType t \<noteq> ''result''))"
  by (auto simp: openAction_def RESULT_TYPES_def filter_empty_conv)

lemma rafCallback_showAction:
  "showAction w \<Longrightarrow> showAction (rafCallback cd htd k f w)"
  by (simp add: rafCallback_def openAction_def Let_def split: option.splits)

lemma runCallbacks_showAction:
  "showAction w \<Longrightarrow> showAction (runCallbacks cd htd q w)"
  by (induction cd htd q w rule: runCallbacks.induct) (simp_all add: rafCallback_showAction)

lemma sendMessage_showAction:
  "showAction (sendMessage p rid info w) = showAction w"
  by (simp add: sendMessage_def Let_def)

lemma handleViewHistoryFiles_tasks:
  "taskList (handleViewHistoryFiles rid fs sessionResult clock w) =
     map (\<lambda>(file, index). fileTask rid clock file index) (zip fs [0..<length fs])"
  "showAction (handleViewHistoryFiles rid fs sessionResult clock w)"
  by (simp_all add: handleViewHistoryFiles_def Let_def split: outcome.splits)

lemma loadChatSession_showAction:
  "showAction (loadChatSession rid fromParam sessionResult fileResult sessionResult2 clock w) =
     (if restored sessionResult \<and> fromParam = Some ''history'' then \<not> noFiles fileResult
      else showAction w)"
  by (simp add: loadChatSession_def restored_def noFiles_def handleViewHistoryFiles_tasks Let_def
        split: outcome.splits)

lemma step_showAction:
  "\<not> hides e \<Longrightarrow> showAction w \<Longrightarrow> showAction (step cd htd e w)"
proof (cases e)
  case (ActionStatus b)
  assume "\<not> hides e"
  then show ?thesis using ActionStatus by (simp add: changeActionStatus_def)
next
  case AnimationFrame
  assume "showAction w"
  then have "showAction (w\<lparr>rafQueue := []\<rparr>)" by simp
  then show ?thesis using AnimationFrame by (simp add: runCallbacks_showAction)
next
  case (Restore rid fromParam sessionResult fileResult sessionResult2 clock)
  assume "\<not> hides e" and "showAction w"
  then show ?thesis using Restore by (auto simp: loadChatSession_showAction)
qed (simp_all add: sendMessage_showAction handleMessage_showAction)

lemma step_hides:
  "hides e \<Longrightarrow> \<not> showAction (step cd htd e w)"
  by (cases e) (simp_all add: changeActionStatus_def loadChatSession_showAction)

lemma run_showAction:
  "\<forall>e\<in>set es. \<not> hides e \<Longrightarrow> showAction w \<Longrightarrow> showAction (run cd htd es w)"
  by (induction es arbitrary: w) (simp_all add: step_showAction)

lemma turnData_loading [simp]:
  "turnData (st\<lparr>currentChat := (currentChat st)\<lparr>loading := b\<rparr>\<rparr>) = turnData st"
  by (simp add: turnData_def)

lemma heartbeat_step:
  assumes "packageType f = ''heartbeat''" and "k < length (streams w)"
  shows "plan (handleMessage htd k f w) = plan w"
    and "rafQueue (handleMessage htd k f w) = rafQueue w"
    and "map turnData (streams (handleMessage htd k f w)) = map turnData (streams w)"
    and "status f \<noteq> Some ''tokenUseUp'' \<Longrightarrow> taskList (handleMessage htd k f w) = taskList w"
    and "status f \<noteq> Some ''tokenUseUp'' \<Longrightarrow> streams (handleMessage htd k f w) = streams w"
    and "status f \<noteq> Some ''tokenUseUp'' \<Longrightarrow> viewLoading (handleMessage htd k f w) = viewLoading w"
  using assms by (simp_all add: handleMessage_def written_def Let_def map_update_same)


lemma rafCallback_no_update:
  "\<not> updates f \<Longrightarrow> filter isUpdate (trace (rafCallback cd htd k f w)) = filter isUpdate (trace w)"
proof (cases "resultMap f")
  case None
  then show ?thesis by (simp add: rafCallback_idle)
next
  case (Some rm)
  assume n: "\<not> updates f"
  show ?thesis
  proof (cases "eventData rm")
    case None
    then show ?thesis using Some by (simp add: rafCallback_idle)
  next
    case (Some ed)
    then show ?thesis
      using n \<open>resultMap f = Some rm\<close>
      by (simp add: rafCallback_trace updates_def payload_def)
  qed
qed


subsection \<open>A view restored from a request id\<close>

lemma saveOnce_fromUrl:
  "truthy (c_propRequestId st) \<Longrightarrow> saveOnce st ss f w = w"
  by (simp add: saveOnce_def)

lemma fromUrl_nth:
  "fromUrl w \<Longrightarrow> k < length (streams w) \<Longrightarrow> truthy (c_propRequestId (streams w ! k))"
  by (simp add: fromUrl_def list_all_length)

lemma step_fromUrl:
  assumes "fromUrl w" and "urlSubmit e"
  shows "fromUrl (step cd htd e w) \<and> creates (step cd htd e w) = creates w"
proof (cases e)
  case (Submit p rid info)
  then show ?thesis using assms
    by (simp add: sendMessage_def fromUrl_def creates_def Let_def)
next
  case (Frame k f)
  show ?thesis
  proof (cases "k < length (streams w)")
    case True
    then have "saveOnce (streams w ! k) (written k f w) f w = w"
      using assms(1) by (simp add: saveOnce_fromUrl fromUrl_nth)
    then show ?thesis
      using Frame True assms(1) handleMessage_captured [OF True, of htd f]
      by (simp add: handleMessage_creates fromUrl_def)
  next
    case False
    then show ?thesis using Frame assms by simp
  qed
next
  case AnimationFrame
  have "map c_propRequestId (streams (step cd htd AnimationFrame w)) = map c_propRequestId (streams w)"
    by (simp add: runCallbacks_captured)
  then show ?thesis
    using AnimationFrame assms(1) animationFrame_creates [of cd htd w] by (simp add: fromUrl_def)
next
  case (ActionStatus b)
  then show ?thesis using assms(1)
    by (simp add: actionStatus_creates) (simp add: fromUrl_def changeActionStatus_def)
next
  case (Restore rid fromParam sessionResult fileResult sessionResult2 clock)
  then show ?thesis using assms(1)
    by (simp add: loadChatSession_fields fromUrl_def)
qed

lemma run_fromUrl:
  "fromUrl w \<Longrightarrow> \<forall>e\<in>set es. urlSubmit e \<Longrightarrow>
     fromUrl (run cd htd es w) \<and> creates (run cd htd es w) = creates w"
proof (induction es arbitrary: w)
  case Nil
  then show ?case by simp
next
  case (Cons e es)
  have s: "fromUrl (step cd htd e w) \<and> creates (step cd htd e w) = creates w"
    using Cons.prems by (simp add: step_fromUrl)
  have "fromUrl (run cd htd es (step cd htd e w))
      \<and> creates (run cd htd es (step cd htd e w)) = creates (step cd htd e w)"
    using Cons.IH [of "step cd htd e w"] Cons.prems s by simp
  then show ?case using s by simp
qed

text \<open>
  Claim C10. In a view whose handlers were all made in renders with the prop
  \<open>requestId\<close> set, and in which every query is submitted in such a render, no event
  makes a create call: not a frame for any handler, not an animation frame, not a
  further query. The handlers made on the way have the prop set as well. What the view
  sends to the store is then the update of a terminal frame (claim C3).
\<close>

theorem restored_view_never_creates:
  assumes "\<forall>st\<in>set (streams w). truthy (c_propRequestId st)"
    and "\<forall>e\<in>set es. urlSubmit e"
  shows "creates (run cd htd es w) = creates w
    \<and> (\<forall>st\<in>set (streams (run cd htd es w)). truthy (c_propRequestId st))"
proof -
  have "fromUrl w" using assms(1) by (simp add: fromUrl_def list_all_iff)
  then have "fromUrl (run cd htd es w) \<and> creates (run cd htd es w) = creates w"
    using assms(2) by (rule run_fromUrl)
  then show ?thesis by (simp add: fromUrl_def list_all_iff)
qed

text \<open>
  A view mounted for \<open>r0\<close>, in which \<open>hello\<close> is submitted and answered: no create
  call, one update call.
\<close>

theorem restored_view_never_creates_witness:
  "creates (run combineData handleTaskData
      [Submit (Some ''r0'') ''u1'' helloInfo, Frame 0 frame2, AnimationFrame, Frame 0 frame3e,
       AnimationFrame] (initialView ''s1'')) = []
   \<and> length (filter isUpdate (trace (run combineData handleTaskData
      [Submit (Some ''r0'') ''u1'' helloInfo, Frame 0 frame2, AnimationFrame, Frame 0 frame3e,
       AnimationFrame] (initialView ''s1'')))) = 1
   \<and> length (streams (run combineData handleTaskData
      [Submit (Some ''r0'') ''u1'' helloInfo, Frame 0 frame2, AnimationFrame, Frame 0 frame3e,
       AnimationFrame] (initialView ''s1''))) = 1"
proof -
  have a: "\<forall>st\<in>set (streams (initialView ''s1'')). truthy (c_propRequestId st)"
    by (simp add: initialView_def)
  have b: "\<forall>e\<in>set [Submit (Some ''r0'') ''u1'' helloInfo, Frame 0 frame2, AnimationFrame,
       Frame 0 frame3e, AnimationFrame]. urlSubmit e"
    by (simp add: truthy_def)
  have c: "creates (initialView ''s1'') = []"
    by (simp add: creates_def initialView_def)
  have d: "length (filter isUpdate (trace (run combineData handleTaskData
      [Submit (Some ''r0'') ''u1'' helloInfo, Frame 0 frame2, AnimationFrame, Frame 0 frame3e,
       AnimationFrame] (initialView ''s1'')))) = 1
   \<and> length (streams (run combineData handleTaskData
      [Submit (Some ''r0'') ''u1'' helloInfo, Frame 0 frame2, AnimationFrame, Frame 0 frame3e,
       AnimationFrame] (initialView ''s1''))) = 1"
    by code_simp
  show ?thesis
    using restored_view_never_creates [OF a b, of combineData handleTaskData] c d by simp
qed


subsection \<open>The workspace gate\<close>

text \<open>
  Claim C5, as the code has it. \<open>openAction\<close> opens a closed workspace exactly when a
  task of the list has a message type other than \<open>task_summary\<close> and \<open>result\<close>; it
  never closes an open one. Over any events that do not hide it (frames, animation
  frames, new queries, the operator opening it, a restore that finds files or is not
  from the history), an open workspace stays open. Two events hide it: the operator
  closing it (\<open>changeActionStatus\<close> with \<open>false\<close>, from \<open>onClose\<close>), and
  \<open>loadChatSession\<close> for a conversation opened from the history whose session was read
  and whose file listing is empty or fails.
\<close>

theorem workspace_gate:
  "(showAction (openAction ts (w\<lparr>showAction := False\<rparr>)) \<longleftrightarrow>
      (\<exists>t\<in>set ts. messageType t \<noteq> ''task_summary'' \<and> messageType t \<noteq> ''result''))
   \<and> (showAction w \<longrightarrow> showAction (openAction ts w))
   \<and> ((\<forall>e\<in>set es. \<not> hides e) \<and> showAction w \<longrightarrow> showAction (run cd htd es w))
   \<and> (hides e \<longrightarrow> \<not> showAction (step cd htd e w))
   \<and> \<not> showAction (step cd htd (ActionStatus False) w)"
  by (simp add: openAction_showAction run_showAction step_hides changeActionStatus_def)

text \<open>
  The examples of the spec: the empty list and a list of a \<open>result\<close> task keep the
  workspace closed, a \<open>tool_call\<close> task opens it; once it is open, a frame with only a
  \<open>task_summary\<close> task and a restore that is not from the history leave it open, the
  operator closes it, and a restore from the history without files hides it.
\<close>

theorem workspace_gate_witness:
  "\<not> showAction (openAction [] (started\<lparr>showAction := False\<rparr>))
   \<and> \<not> showAction (openAction [taskA\<lparr>messageType := ''result''\<rparr>] (started\<lparr>showAction := False\<rparr>))
   \<and> showAction (openAction [taskA\<lparr>messageType := ''result''\<rparr>, taskA] (started\<lparr>showAction := False\<rparr>))
   \<and> showAction shown
   \<and> showAction (run combineData handleTaskData
        [Frame 0 summaryFrame, AnimationFrame,
         Restore ''r1'' None (Resolved stored) (Resolved \<lparr>results = [], totalSize = 0\<rparr>)
           (Rejected (ApiError None)) (\<lambda>i. ''now'')] shown)
   \<and> \<not> showAction (step combineData handleTaskData (ActionStatus False) shown)
   \<and> \<not> showAction (step combineData handleTaskData
        (Restore ''r2'' (Some ''history'') (Resolved stored) (Resolved \<lparr>results = [], totalSize = 0\<rparr>)
           (Rejected (ApiError None)) (\<lambda>i. ''now'')) shown)"
proof -
  have a: "\<forall>e\<in>set [Frame 0 summaryFrame, AnimationFrame,
         Restore ''r1'' None (Resolved stored) (Resolved \<lparr>results = [], totalSize = 0\<rparr>)
           (Rejected (ApiError None)) (\<lambda>i. ''now'')]. \<not> hides e"
    by simp
  have b: "showAction shown" by code_simp
  have c: "messageType taskA = ''tool_call''" by (simp add: taskA_def)
  have h: "hides (Restore ''r2'' (Some ''history'') (Resolved stored)
      (Resolved \<lparr>results = [], totalSize = 0\<rparr>) (Rejected (ApiError None)) (\<lambda>i. ''now''))"
    by (simp add: restored_def noFiles_def stored_def)
  have g1: "\<not> showAction (openAction [] (started\<lparr>showAction := False\<rparr>))"
    using workspace_gate [of "[]" started "[]" combineData handleTaskData] by simp
  have g2: "\<not> showAction (openAction [taskA\<lparr>messageType := ''result''\<rparr>]
              (started\<lparr>showAction := False\<rparr>))"
    using workspace_gate [of "[taskA\<lparr>messageType := ''result''\<rparr>]" started "[]"
        combineData handleTaskData] by simp
  have g3: "showAction (openAction [taskA\<lparr>messageType := ''result''\<rparr>, taskA]
              (started\<lparr>showAction := False\<rparr>))"
    using workspace_gate [of "[taskA\<lparr>messageType := ''result''\<rparr>, taskA]" started "[]"
        combineData handleTaskData] c by simp
  have g4: "showAction (run combineData handleTaskData
        [Frame 0 summaryFrame, AnimationFrame,
         Restore ''r1'' None (Resolved stored) (Resolved \<lparr>results = [], totalSize = 0\<rparr>)
           (Rejected (ApiError None)) (\<lambda>i. ''now'')] shown)
      \<and> \<not> showAction (step combineData handleTaskData (ActionStatus False) shown)"
    using workspace_gate [where w = shown and cd = combineData and htd = handleTaskData
        and es = "[Frame 0 summaryFrame, AnimationFrame,
         Restore ''r1'' None (Resolved stored) (Resolved \<lparr>results = [], totalSize = 0\<rparr>)
           (Rejected (ApiError None)) (\<lambda>i. ''now'')]"] a b by blast
  have g5: "\<not> showAction (step combineData handleTaskData
        (Restore ''r2'' (Some ''history'') (Resolved stored) (Resolved \<lparr>results = [], totalSize = 0\<rparr>)
           (Rejected (ApiError None)) (\<lambda>i. ''now'')) shown)"
    using workspace_gate [where w = shown and cd = combineData and htd = handleTaskData
        and e = "Restore ''r2'' (Some ''history'') (Resolved stored)
          (Resolved \<lparr>results = [], totalSize = 0\<rparr>) (Rejected (ApiError None)) (\<lambda>i. ''now'')"] h
    by blast
  show ?thesis using g1 g2 g3 g4 g5 b by blast
qed

text \<open>
  Claim C5 as it is stated fails in its last part: not only the operator's close action
  hides the workspace. While the turn \<open>hello\<close> is loading and its workspace is open, a
  conversation opened from the history that has no files hides the workspace, and no
  close action was taken.
\<close>

theorem restore_hides_open_workspace:
  "showAction shown \<and> viewLoading shown
   \<and> isClose (Restore ''r2'' (Some ''history'') (Resolved stored)
        (Resolved \<lparr>results = [], totalSize = 0\<rparr>) (Rejected (ApiError None)) (\<lambda>i. ''now'')) = False
   \<and> showAction (step combineData handleTaskData
        (Restore ''r2'' (Some ''history'') (Resolved stored) (Resolved \<lparr>results = [], totalSize = 0\<rparr>)
           (Rejected (ApiError None)) (\<lambda>i. ''now'')) shown) = False"
  by code_simp

subsection \<open>Heartbeats\<close>

text \<open>
  Claim C4. After any sequence of heartbeat frames for a handler, from any state, every
  turn has the tasks, the \<open>multiAgent\<close> record (task list and plan), the response and
  the thought it had; the plan of the view and the waiting callbacks are the same. The only field of a turn a heartbeat can write is \<open>loading\<close>, and only
  when it carries the quota-exhausted status; without that status the task list of the
  view, the turns as a whole and the loading state are unchanged too.
\<close>

theorem heartbeats_change_nothing:
  assumes "\<forall>f\<in>set fs. packageType f = ''heartbeat''"
  shows "plan (run cd htd (map (Frame k) fs) w) = plan w
    \<and> rafQueue (run cd htd (map (Frame k) fs) w) = rafQueue w
    \<and> map turnData (streams (run cd htd (map (Frame k) fs) w)) = map turnData (streams w)
    \<and> ((\<forall>f\<in>set fs. status f \<noteq> Some ''tokenUseUp'') \<longrightarrow>
          taskList (run cd htd (map (Frame k) fs) w) = taskList w
        \<and> streams (run cd htd (map (Frame k) fs) w) = streams w
        \<and> viewLoading (run cd htd (map (Frame k) fs) w) = viewLoading w)"
  using assms
proof (induction fs arbitrary: w)
  case Nil
  then show ?case by simp
next
  case (Cons f fs)
  let ?w1 = "step cd htd (Frame k f) w"
  have hb: "packageType f = ''heartbeat''" using Cons.prems by simp
  have one: "plan ?w1 = plan w \<and> rafQueue ?w1 = rafQueue w
      \<and> map turnData (streams ?w1) = map turnData (streams w)
      \<and> (status f \<noteq> Some ''tokenUseUp'' \<longrightarrow>
           taskList ?w1 = taskList w \<and> streams ?w1 = streams w \<and> viewLoading ?w1 = viewLoading w)"
    using heartbeat_step [OF hb, of k w htd] by simp
  have ih: "plan (run cd htd (map (Frame k) fs) ?w1) = plan ?w1
    \<and> rafQueue (run cd htd (map (Frame k) fs) ?w1) = rafQueue ?w1
    \<and> map turnData (streams (run cd htd (map (Frame k) fs) ?w1)) = map turnData (streams ?w1)
    \<and> ((\<forall>f\<in>set fs. status f \<noteq> Some ''tokenUseUp'') \<longrightarrow>
          taskList (run cd htd (map (Frame k) fs) ?w1) = taskList ?w1
        \<and> streams (run cd htd (map (Frame k) fs) ?w1) = streams ?w1
        \<and> viewLoading (run cd htd (map (Frame k) fs) ?w1) = viewLoading ?w1)"
    using Cons.IH [of ?w1] Cons.prems by simp
  have unfold: "run cd htd (map (Frame k) (f # fs)) w = run cd htd (map (Frame k) fs) ?w1"
    by simp
  show ?case
    unfolding unfold using one ih by simp
qed


text \<open>Two heartbeats, the second with a turn id, after the first task was merged.\<close>

theorem heartbeats_change_nothing_witness:
  "plan (run combineData handleTaskData (map (Frame 0) [frame1, frame1r]) shown) = plan shown
   \<and> map turnData (streams (run combineData handleTaskData (map (Frame 0) [frame1, frame1r]) shown))
       = map turnData (streams shown)
   \<and> taskList (run combineData handleTaskData (map (Frame 0) [frame1, frame1r]) shown)
       = taskList shown
   \<and> streams (run combineData handleTaskData (map (Frame 0) [frame1, frame1r]) shown)
       = streams shown"
proof -
  have a: "\<forall>f\<in>set [frame1, frame1r]. packageType f = ''heartbeat''"
    by (simp add: frame1_def frame1r_def)
  have b: "\<forall>f\<in>set [frame1, frame1r]. status f \<noteq> Some ''tokenUseUp''"
    by (simp add: frame1_def frame1r_def)
  show ?thesis
    using heartbeats_change_nothing [OF a, of combineData handleTaskData 0 shown] b by blast
qed

subsection \<open>The quota-exhausted frame\<close>





subsection \<open>The terminal frame\<close>





subsection \<open>Frames of a superseded stream\<close>

text \<open>
  Claim C7, as the code has it. A handler holds no token and compares none. When a
  stream that is not the newest delivers a data frame with a payload, the frame is merged
  into the turn of that stream when its callback runs, the task list and the plan of the
  view are taken from that turn, and the last entry of the chat list, which is the turn
  of the newest query, is replaced by it.
\<close>

theorem late_frames_are_merged:
  assumes "Suc k < length (streams w)" and "rafQueue w = []"
    and "status f \<noteq> Some ''tokenUseUp''" and "packageType f \<noteq> ''heartbeat''"
    and "resultMap f = Some rm" and "eventData rm = Some ed" and "\<not> finished f"
  shows "currentChat (streams (run cd htd [Frame k f, AnimationFrame] w) ! k)
           = cd ed (currentChat (streams w ! k))
    \<and> taskList (run cd htd [Frame k f, AnimationFrame] w)
           = td_taskList (htd (cd ed (currentChat (streams w ! k))) (c_deepThink (streams w ! k))
                              (multiAgent (cd ed (currentChat (streams w ! k)))))
    \<and> plan (run cd htd [Frame k f, AnimationFrame] w)
           = td_plan (htd (cd ed (currentChat (streams w ! k))) (c_deepThink (streams w ! k))
                          (multiAgent (cd ed (currentChat (streams w ! k)))))
    \<and> last (chatList (run cd htd [Frame k f, AnimationFrame] w))
           = cd ed (currentChat (streams w ! k))"
proof -
  have k: "k < length (streams w)" using assms(1) by simp
  have r: "run cd htd [Frame k f, AnimationFrame] w =
      rafCallback cd htd k f
        ((saveOnce (streams w ! k) (streams w) f w)\<lparr>trace := trace (saveOnce (streams w ! k) (streams w) f w) @ [ScrollToTop],
            rafQueue := []\<rparr>)"
    by (rule frame_then_animation [OF k assms(2) assms(3) assms(4)])
  have k': "k < length (streams ((saveOnce (streams w ! k) (streams w) f w)
           \<lparr>trace := trace (saveOnce (streams w ! k) (streams w) f w) @ [ScrollToTop],
            rafQueue := []\<rparr>))"
    using k by simp
  show ?thesis
    unfolding r rafCallback_fields [OF assms(5) assms(6)] rafCallback_streams_eq [OF assms(5) assms(6)]
      rafCallback_chatList [OF assms(5) assms(6) k']
    using k assms(7) by (simp add: turnAfter_def)
qed

theorem late_frames_are_merged_witness:
  "Suc 0 < length (streams superseded)
   \<and> query (last (chatList superseded)) = ''again''
   \<and> last (chatList (run combineData handleTaskData [Frame 0 frame2, AnimationFrame] superseded))
       = combineData \<lparr>ev_tasks = [taskA], ev_thought = [], ev_plan = None\<rparr>
           (currentChat (streams superseded ! 0))"
proof -
  have a: "Suc 0 < length (streams superseded)" by code_simp
  have b: "rafQueue superseded = []" by code_simp
  have c: "status frame2 \<noteq> Some ''tokenUseUp''" "packageType frame2 \<noteq> ''heartbeat''"
    "resultMap frame2 = Some \<lparr>eventData = Some \<lparr>ev_tasks = [taskA], ev_thought = [], ev_plan = None\<rparr>\<rparr>"
    "eventData \<lparr>eventData = Some \<lparr>ev_tasks = [taskA], ev_thought = [], ev_plan = None\<rparr>\<rparr>
       = Some \<lparr>ev_tasks = [taskA], ev_thought = [], ev_plan = None\<rparr>"
    "\<not> finished frame2"
    by (simp_all add: frame2_def)
  have d: "query (last (chatList superseded)) = ''again''" by code_simp
  show ?thesis
    using late_frames_are_merged [OF a b c, of combineData handleTaskData] a d by blast
qed

text \<open>
  Claim C7 as it is stated fails: after \<open>again\<close> has superseded \<open>hello\<close>, a late
  frame of the first stream replaces the entry of \<open>again\<close> in the chat list by the
  turn \<open>hello\<close> and fills the task list of the view.
\<close>

theorem late_frame_overwrites_current_turn:
  "query (last (chatList superseded)) = ''again''
   \<and> taskList superseded = []
   \<and> query (last (chatList (run combineData handleTaskData [Frame 0 frame2, AnimationFrame] superseded)))
       = ''hello''
   \<and> map query (chatList (run combineData handleTaskData [Frame 0 frame2, AnimationFrame] superseded))
       = [''hello'', ''hello'']
   \<and> taskList (run combineData handleTaskData [Frame 0 frame2, AnimationFrame] superseded) = [taskA]"
  by code_simp

subsection \<open>Failures of the collaborators\<close>

text \<open>
  Claim C6, as the code has it. Whatever the outcome of the request, \<open>saveChatSession\<close>
  and \<open>updateChatSession\<close> do not throw and leave the view as it is: a failure is
  written to the console only. After a create conflict (status 409) the console has the
  error and the line that the session exists already. \<open>handleError\<close>, which the stream
  client calls on a transport error, throws the error it is given.
\<close>

theorem persistence_failures_are_logged:
  "(\<exists>logs. saveChatSession outcome w = Inr (w, logs))
   \<and> (\<exists>logs. updateChatSession outcome w = Inr (w, logs))
   \<and> saveChatSession (Rejected (ApiError (Some 409))) w =
        Inr (w, [ConsoleLog ''Saving chat session'', ConsoleError ''Error saving chat session'',
                 ConsoleLog ''Session already exists''])
   \<and> updateChatSession (Rejected error) w =
        Inr (w, [ConsoleLog ''Updating chat session'', ConsoleError ''Error updating chat session''])
   \<and> handleError error w = Inl error"
  by (cases outcome)
     (simp_all add: saveChatSession_def updateChatSession_def handleError_def await_def)

text \<open>
  Claim C6 as it is stated fails for the transport error: it is thrown onward, not
  turned into state of the view.
\<close>

theorem transport_error_is_rethrown:
  "handleError (ApiError None) started = Inl (ApiError None)"
  by (simp add: handleError_def)


subsection \<open>Merging the tasks of a frame\<close>

lemma upsert_replace:
  "fst x = key \<Longrightarrow> key \<notin> fst ` set xs \<Longrightarrow> upsert key t (xs @ x # ys) = xs @ (key, t) # ys"
  by (induction xs) auto

lemma upsert_append:
  "key \<notin> fst ` set ts \<Longrightarrow> upsert key t ts = ts @ [(key, t)]"
  by (induction ts) auto

lemma upsert_twice:
  "upsert key t2 (upsert key t1 ts) = upsert key t2 ts"
  by (induction ts) auto

lemma upsert_keys:
  "map fst (upsert key t ts) =
     (if key \<in> set (map fst ts) then map fst ts else map fst ts @ [key])"
  by (induction ts) auto

lemma upsert_extends:
  "\<exists>extra. map fst (upsert key t ts) = map fst ts @ extra"
  by (cases "key \<in> set (map fst ts)") (simp_all add: upsert_keys)

lemma upsertFrom_keys:
  "\<exists>extra. map fst (upsertFrom n new ts) = map fst ts @ extra"
proof (induction new arbitrary: n ts)
  case Nil
  then show ?case by simp
next
  case (Cons t new)
  obtain e1 where e1: "map fst (upsert (keyOf n t) t ts) = map fst ts @ e1"
    using upsert_extends by blast
  obtain e2 where "map fst (upsertFrom (Suc n) new (upsert (keyOf n t) t ts))
      = map fst (upsert (keyOf n t) t ts) @ e2"
    using Cons.IH by blast
  then have "map fst (upsertFrom n (t # new) ts) = map fst ts @ (e1 @ e2)"
    using e1 by simp
  then show ?case by blast
qed

lemma upsertAll_keys:
  "\<exists>extra. map fst (upsertAll new ts) = map fst ts @ extra"
  unfolding upsertAll_def by (rule upsertFrom_keys)

lemma upsertFrom_fold:
  "upsertFrom n new ts =
     fold (\<lambda>(index, t). upsert (keyOf index t) t) (zip [n..<n + length new] new) ts"
proof (induction new arbitrary: n ts)
  case Nil
  then show ?case by simp
next
  case (Cons t new)
  have "[n..<n + length (t # new)] = n # [Suc n..<Suc n + length new]"
    by (subst upt_rec) simp
  then show ?case using Cons.IH [of "Suc n" "upsert (keyOf n t) t ts"] by simp
qed

lemma upsertAll_fold:
  "upsertAll new ts =
     fold (\<lambda>(index, t). upsert (keyOf index t) t) (zip [0..<length new] new) ts"
  unfolding upsertAll_def using upsertFrom_fold [of 0 new ts] by simp

lemma grows_refl: "grows ss ss"
  by (simp add: grows_def)

lemma grows_trans:
  assumes "grows a b" and "grows b c"
  shows "grows a c"
  unfolding grows_def
proof (intro conjI allI impI)
  show "length a \<le> length c" using assms by (simp add: grows_def)
next
  fix j assume j: "j < length a"
  then have jb: "j < length b" using assms(1) by (simp add: grows_def)
  obtain e1 where e1: "map fst (tasksOf (b ! j)) = map fst (tasksOf (a ! j)) @ e1"
    using assms(1) j unfolding grows_def by blast
  obtain e2 where e2: "map fst (tasksOf (c ! j)) = map fst (tasksOf (b ! j)) @ e2"
    using assms(2) jb unfolding grows_def by blast
  have "map fst (tasksOf (c ! j)) = map fst (tasksOf (a ! j)) @ (e1 @ e2)"
    using e1 e2 by simp
  then show "\<exists>extra. map fst (tasksOf (c ! j)) = map fst (tasksOf (a ! j)) @ extra"
    by blast
qed

lemma grows_update:
  assumes "\<exists>extra. map fst (tasksOf st) = map fst (tasksOf (ss ! k)) @ extra"
  shows "grows ss (ss[k := st])"
  unfolding grows_def
proof (intro conjI allI impI)
  show "length ss \<le> length (ss[k := st])" by simp
next
  fix j assume "j < length ss"
  then show "\<exists>extra. map fst (tasksOf (ss[k := st] ! j)) = map fst (tasksOf (ss ! j)) @ extra"
    using assms by (cases "j = k") simp_all
qed

lemma grows_append: "grows ss (ss @ new)"
  by (simp add: grows_def nth_append)

lemma tasksOf_turnAfter:
  "tasksOf (st\<lparr>currentChat := turnAfter combineData f ed cc\<rparr>) =
     upsertAll (ev_tasks ed) (ma_tasks (multiAgent cc))"
  by (simp add: tasksOf_def turnAfter_def combineData_def)

lemma rafCallback_tasks:
  assumes "resultMap f = Some rm" and "eventData rm = Some ed" and "k < length (streams w)"
  shows "tasksOf (streams (rafCallback combineData handleTaskData k f w) ! k)
           = upsertAll (ev_tasks ed) (tasksOf (streams w ! k))"
    and "taskList (rafCallback combineData handleTaskData k f w)
           = map snd (upsertAll (ev_tasks ed) (tasksOf (streams w ! k)))"
proof -
  show "tasksOf (streams (rafCallback combineData handleTaskData k f w) ! k)
           = upsertAll (ev_tasks ed) (tasksOf (streams w ! k))"
    unfolding rafCallback_streams_eq [OF assms(1) assms(2)]
    using assms(3) by (simp add: tasksOf_turnAfter) (simp add: tasksOf_def)
  show "taskList (rafCallback combineData handleTaskData k f w)
           = map snd (upsertAll (ev_tasks ed) (tasksOf (streams w ! k)))"
    unfolding rafCallback_fields [OF assms(1) assms(2)]
    by (simp add: handleTaskData_def combineData_def tasksOf_def)
qed

lemma rafCallback_grows:
  "grows (streams w) (streams (rafCallback combineData htd k f w))"
proof (cases "resultMap f")
  case None
  then show ?thesis by (simp add: rafCallback_idle grows_refl)
next
  case (Some rm)
  show ?thesis
  proof (cases "eventData rm")
    case None
    then show ?thesis using Some by (simp add: rafCallback_idle grows_refl)
  next
    case (Some ed)
    have "\<exists>extra. map fst (upsertAll (ev_tasks ed) (tasksOf (streams w ! k)))
            = map fst (tasksOf (streams w ! k)) @ extra"
      by (rule upsertAll_keys)
    then show ?thesis
      unfolding rafCallback_streams_eq [OF \<open>resultMap f = Some rm\<close> Some]
      by (intro grows_update) (simp add: tasksOf_turnAfter, simp add: tasksOf_def)
  qed
qed

lemma runCallbacks_grows:
  "grows (streams w) (streams (runCallbacks combineData htd q w))"
proof (induction q arbitrary: w)
  case Nil
  then show ?case by (simp add: grows_refl)
next
  case (Cons a q)
  obtain k frame where a: "a = (k, frame)" by (cases a)
  show ?case
  proof (cases "k < length (streams w)")
    case True
    have "grows (streams w) (streams (rafCallback combineData htd k frame w))"
      by (rule rafCallback_grows)
    moreover have "grows (streams (rafCallback combineData htd k frame w))
        (streams (runCallbacks combineData htd q (rafCallback combineData htd k frame w)))"
      by (rule Cons.IH)
    ultimately show ?thesis using True a by (simp add: grows_trans)
  next
    case False
    then show ?thesis using Cons.IH [of w] a by simp
  qed
qed

lemma step_grows:
  "grows (streams w) (streams (step combineData htd e w))"
proof (cases e)
  case (Submit p rid info)
  then show ?thesis by (simp add: sendMessage_def Let_def grows_refl grows_append)
next
  case (Frame k f)
  have "grows (streams w) (streams (handleMessage htd k f w))"
    using handleMessage_streams [of htd k f w]
  proof
    assume "streams (handleMessage htd k f w) = streams w"
    then show ?thesis by (simp add: grows_refl)
  next
    assume "streams (handleMessage htd k f w) =
      (streams w)[k := (streams w ! k)\<lparr>currentChat := (currentChat (streams w ! k))\<lparr>loading := False\<rparr>\<rparr>]"
    then show ?thesis by (simp add: grows_update tasksOf_def)
  qed
  then show ?thesis using Frame by (simp add: grows_refl)
next
  case AnimationFrame
  have "grows (streams (w\<lparr>rafQueue := []\<rparr>))
      (streams (runCallbacks combineData htd (rafQueue w) (w\<lparr>rafQueue := []\<rparr>)))"
    by (rule runCallbacks_grows)
  then show ?thesis using AnimationFrame by simp
next
  case (ActionStatus b)
  then show ?thesis by (simp add: changeActionStatus_def grows_refl)
next
  case (Restore rid fromParam sessionResult fileResult sessionResult2 clock)
  then show ?thesis by (simp add: loadChatSession_fields grows_refl)
qed

lemma run_grows:
  "grows (streams w) (streams (run combineData htd es w))"
proof (induction es arbitrary: w)
  case Nil
  then show ?case by (simp add: grows_refl)
next
  case (Cons e es)
  have "grows (streams w) (streams (step combineData htd e w))" by (rule step_grows)
  moreover have "grows (streams (step combineData htd e w))
      (streams (run combineData htd es (step combineData htd e w)))"
    by (rule Cons.IH)
  ultimately show ?case by (simp add: grows_trans)
qed

text \<open>
  Claim C8, on the merger and the extractor modelled from the spec. The identity of a
  task is its explicit id when it has one, and otherwise its turn id and its position
  index. A task whose identity is in the list replaces the entry with that identity where
  it stands; a task with a new identity is appended; upserting an identity twice leaves
  what upserting the later task alone leaves. \<open>combineData\<close> upserts the tasks of the
  payload one after the other in their order, each under its identity at its position in
  the payload. When the callback of a frame with a payload runs, the task list of its turn
  becomes the upsert of the payload into what it was, and the task list of the view is
  that list; a data frame that is neither a quota frame nor a heartbeat, delivered to a
  view with no callback waiting, and the animation frame after it yield the same. Over
  any events, the identities of the tasks of a turn stay, in their order, and new ones
  follow: no task is removed and the list never gets shorter.
\<close>

theorem task_upsert:
  "(fst x = key \<and> key \<notin> fst ` set xs \<longrightarrow> upsert key t (xs @ x # ys) = xs @ (key, t) # ys)
   \<and> (key \<notin> fst ` set ts \<longrightarrow> upsert key t ts = ts @ [(key, t)])
   \<and> upsert key t2 (upsert key t1 ts) = upsert key t2 ts
   \<and> (taskId t \<noteq> [] \<longrightarrow> keyOf i t = Explicit (taskId t))
   \<and> (taskId t = [] \<longrightarrow> keyOf i t = Positional (taskRequestId t) i)
   \<and> upsertAll new ts =
       fold (\<lambda>(index, t). upsert (keyOf index t) t) (zip [0..<length new] new) ts
   \<and> tasksOf (st\<lparr>currentChat := combineData ed (currentChat st)\<rparr>) = upsertAll (ev_tasks ed) (tasksOf st)
   \<and> (k < length (streams w) \<and> payload f = Some ed \<longrightarrow>
        tasksOf (streams (rafCallback combineData handleTaskData k f w) ! k)
          = upsertAll (ev_tasks ed) (tasksOf (streams w ! k))
      \<and> taskList (rafCallback combineData handleTaskData k f w)
          = map snd (upsertAll (ev_tasks ed) (tasksOf (streams w ! k))))
   \<and> (k < length (streams w) \<and> payload f = Some ed \<and> rafQueue w = []
        \<and> status f \<noteq> Some ''tokenUseUp'' \<and> packageType f \<noteq> ''heartbeat'' \<longrightarrow>
        tasksOf (streams (run combineData handleTaskData [Frame k f, AnimationFrame] w) ! k)
          = upsertAll (ev_tasks ed) (tasksOf (streams w ! k))
      \<and> taskList (run combineData handleTaskData [Frame k f, AnimationFrame] w)
          = map snd (upsertAll (ev_tasks ed) (tasksOf (streams w ! k))))
   \<and> (\<forall>j<length (streams w).
        (\<exists>extra. map fst (tasksOf (streams (run combineData handleTaskData es w) ! j))
                  = map fst (tasksOf (streams w ! j)) @ extra)
        \<and> length (tasksOf (streams w ! j))
            \<le> length (tasksOf (streams (run combineData handleTaskData es w) ! j)))"
proof (intro conjI impI allI)
  fix j assume j: "j < length (streams w)"
  obtain extra where e: "map fst (tasksOf (streams (run combineData handleTaskData es w) ! j))
                  = map fst (tasksOf (streams w ! j)) @ extra"
    using run_grows [of w handleTaskData es] j unfolding grows_def by blast
  then show "\<exists>extra. map fst (tasksOf (streams (run combineData handleTaskData es w) ! j))
                  = map fst (tasksOf (streams w ! j)) @ extra" by blast
  have "length (map fst (tasksOf (streams w ! j)))
      \<le> length (map fst (tasksOf (streams (run combineData handleTaskData es w) ! j)))"
    unfolding e by simp
  then show "length (tasksOf (streams w ! j))
            \<le> length (tasksOf (streams (run combineData handleTaskData es w) ! j))"
    by simp
next
  assume h: "k < length (streams w) \<and> payload f = Some ed"
  then obtain rm where rm: "resultMap f = Some rm" and ed: "eventData rm = Some ed"
    using payload_Some by blast
  show "tasksOf (streams (rafCallback combineData handleTaskData k f w) ! k)
          = upsertAll (ev_tasks ed) (tasksOf (streams w ! k))"
    using rafCallback_tasks(1) [OF rm ed] h by blast
  show "taskList (rafCallback combineData handleTaskData k f w)
          = map snd (upsertAll (ev_tasks ed) (tasksOf (streams w ! k)))"
    using rafCallback_tasks(2) [OF rm ed] h by blast
next
  assume h: "k < length (streams w) \<and> payload f = Some ed \<and> rafQueue w = []
        \<and> status f \<noteq> Some ''tokenUseUp'' \<and> packageType f \<noteq> ''heartbeat''"
  then have k: "k < length (streams w)" by simp
  obtain rm where rm: "resultMap f = Some rm" and ed: "eventData rm = Some ed"
    using payload_Some h by blast
  let ?w = "(saveOnce (streams w ! k) (streams w) f w)
           \<lparr>trace := trace (saveOnce (streams w ! k) (streams w) f w) @ [ScrollToTop],
            rafQueue := []\<rparr>"
  have r: "run combineData handleTaskData [Frame k f, AnimationFrame] w =
      rafCallback combineData handleTaskData k f ?w"
    using h by (intro frame_then_animation) simp_all
  have k': "k < length (streams ?w)" using k by simp
  have s: "streams ?w = streams w" by simp
  show "tasksOf (streams (run combineData handleTaskData [Frame k f, AnimationFrame] w) ! k)
          = upsertAll (ev_tasks ed) (tasksOf (streams w ! k))"
    unfolding r rafCallback_tasks(1) [OF rm ed k'] s ..
  show "taskList (run combineData handleTaskData [Frame k f, AnimationFrame] w)
          = map snd (upsertAll (ev_tasks ed) (tasksOf (streams w ! k)))"
    unfolding r rafCallback_tasks(2) [OF rm ed k'] s ..
next
  show "upsertAll new ts =
       fold (\<lambda>(index, t). upsert (keyOf index t) t) (zip [0..<length new] new) ts"
    by (rule upsertAll_fold)
qed (simp_all add: upsert_replace upsert_append upsert_twice tasksOf_def combineData_def keyOf_def)

text \<open>
  A task with the id of an entry replaces it, a task with a new id is appended, and two
  tasks of one payload that have no explicit id are two entries; the second frame of the
  scenario gives the turn and the view its one task.
\<close>

theorem task_upsert_witness:
  "upsert (Explicit ''A'') taskA2 ([] @ (Explicit ''A'', taskA) # [(Explicit ''B'', taskB)])
     = [] @ (Explicit ''A'', taskA2) # [(Explicit ''B'', taskB)]
   \<and> upsert (Explicit ''B'') taskB [(Explicit ''A'', taskA)]
     = [(Explicit ''A'', taskA)] @ [(Explicit ''B'', taskB)]
   \<and> keyOf 1 taskA = Explicit ''A''
   \<and> keyOf 1 taskN = Positional ''r1'' 1
   \<and> upsertAll [taskN, taskN] [] = [(Positional ''r1'' 0, taskN), (Positional ''r1'' 1, taskN)]
   \<and> upsertAll [taskA, taskB, taskA2] [] = [(Explicit ''A'', taskA2), (Explicit ''B'', taskB)]
   \<and> 0 < length (streams started)
   \<and> tasksOf (streams (run combineData handleTaskData [Frame 0 frame2, AnimationFrame] started) ! 0)
       = [(Explicit ''A'', taskA)]
   \<and> taskList (run combineData handleTaskData [Frame 0 frame2, AnimationFrame] started) = [taskA]
   \<and> length (tasksOf (streams started ! 0))
       \<le> length (tasksOf (streams (run combineData handleTaskData
                              [Frame 0 frame2, AnimationFrame] started) ! 0))"
proof -
  let ?ed = "\<lparr>ev_tasks = [taskA], ev_thought = [], ev_plan = None\<rparr>"
  have ids: "fst (Explicit ''A'', taskA) = Explicit ''A''"
    "Explicit ''A'' \<notin> fst ` set ([] :: (taskKey \<times> task) list)"
    "Explicit ''B'' \<notin> fst ` set [(Explicit ''A'', taskA)]"
    by simp_all
  have t: "taskId taskA \<noteq> []" "taskId taskA = ''A''" "taskId taskN = []"
    "taskRequestId taskN = ''r1''"
    by (simp_all add: taskA_def taskN_def)
  have a: "0 < length (streams started)" by code_simp
  have p: "payload frame2 = Some ?ed" by code_simp
  have q: "rafQueue started = []" "status frame2 \<noteq> Some ''tokenUseUp''"
    "packageType frame2 \<noteq> ''heartbeat''"
    by code_simp+
  have u: "upsertAll (ev_tasks ?ed) (tasksOf (streams started ! 0)) = [(Explicit ''A'', taskA)]"
    by code_simp
  have r1: "upsert (Explicit ''A'') taskA2 ([] @ (Explicit ''A'', taskA) # [(Explicit ''B'', taskB)])
     = [] @ (Explicit ''A'', taskA2) # [(Explicit ''B'', taskB)]"
    using task_upsert [where x = "(Explicit ''A'', taskA)" and key = "Explicit ''A''"
        and xs = "[]" and ys = "[(Explicit ''B'', taskB)]" and t = taskA2] ids by blast
  have r2: "upsert (Explicit ''B'') taskB [(Explicit ''A'', taskA)]
     = [(Explicit ''A'', taskA)] @ [(Explicit ''B'', taskB)]"
    using task_upsert [where key = "Explicit ''B''" and t = taskB
        and ts = "[(Explicit ''A'', taskA)]"] ids by blast
  have r3: "keyOf 1 taskA = Explicit ''A''"
    using task_upsert [where t = taskA and i = 1] t by simp
  have r4: "keyOf 1 taskN = Positional ''r1'' 1"
    using task_upsert [where t = taskN and i = 1] t by simp
  have r5: "upsertAll [taskN, taskN] [] = [(Positional ''r1'' 0, taskN), (Positional ''r1'' 1, taskN)]"
    by code_simp
  have r6: "upsertAll [taskA, taskB, taskA2] [] = [(Explicit ''A'', taskA2), (Explicit ''B'', taskB)]"
    by code_simp
  note inst = task_upsert [where w = started and k = 0 and f = frame2 and ed = ?ed
      and es = "[Frame 0 frame2, AnimationFrame]"]
  have r7: "tasksOf (streams (run combineData handleTaskData [Frame 0 frame2, AnimationFrame] started) ! 0)
       = upsertAll (ev_tasks ?ed) (tasksOf (streams started ! 0))"
    using inst a p q by blast
  have r8: "taskList (run combineData handleTaskData [Frame 0 frame2, AnimationFrame] started)
       = map snd (upsertAll (ev_tasks ?ed) (tasksOf (streams started ! 0)))"
    using inst a p q by blast
  have r9: "length (tasksOf (streams started ! 0))
       \<le> length (tasksOf (streams (run combineData handleTaskData
                              [Frame 0 frame2, AnimationFrame] started) ! 0))"
    using inst a by blast
  show ?thesis using r1 r2 r3 r4 r5 r6 r7 r8 r9 a unfolding u by simp
qed

subsection \<open>Restoring from the history\<close>

text \<open>
  Claim C9. When a conversation is opened from the history (\<open>from=history\<close>) and its
  session was read, a file list that is not empty opens the workspace and makes the task
  list one \<open>file\<close> task for each file, in the order of the listing, whatever the task
  list was; an empty file list clears the task list and hides the workspace.
\<close>

theorem restore_from_history:
  assumes "sr_success result" and "sr_data result \<noteq> None"
  shows "(results fr \<noteq> [] \<longrightarrow>
        taskList (loadChatSession rid (Some ''history'') (Resolved result) (Resolved fr)
                    sessionResult2 clock w)
          = map (\<lambda>(file, index). fileTask rid clock file index)
              (zip (results fr) [0..<length (results fr)])
      \<and> length (taskList (loadChatSession rid (Some ''history'') (Resolved result) (Resolved fr)
                    sessionResult2 clock w)) = length (results fr)
      \<and> (\<forall>i<length (results fr).
            taskList (loadChatSession rid (Some ''history'') (Resolved result) (Resolved fr)
                    sessionResult2 clock w) ! i = fileTask rid clock (results fr ! i) i
          \<and> messageType (fileTask rid clock (results fr ! i) i) = ''file'')
      \<and> showAction (loadChatSession rid (Some ''history'') (Resolved result) (Resolved fr)
                    sessionResult2 clock w))
    \<and> (results fr = [] \<longrightarrow>
        taskList (loadChatSession rid (Some ''history'') (Resolved result) (Resolved fr)
                    sessionResult2 clock w) = []
      \<and> \<not> showAction (loadChatSession rid (Some ''history'') (Resolved result) (Resolved fr)
                    sessionResult2 clock w))"
  using assms
  by (auto simp: loadChatSession_def handleViewHistoryFiles_tasks Let_def fileTask_def)

text \<open>Two files and no file, read into a view that shows the streamed task.\<close>

theorem restore_from_history_witness:
  "sr_success stored
   \<and> map taskId (taskList (loadChatSession ''r1'' (Some ''history'') (Resolved stored)
        (Resolved \<lparr>results = [file1, file2], totalSize = 2\<rparr>) (Rejected (ApiError None))
        (\<lambda>i. ''now'') (run combineData handleTaskData [Frame 0 frame2, AnimationFrame] started)))
       = [''r1-0'', ''r1-1'']
   \<and> showAction (loadChatSession ''r1'' (Some ''history'') (Resolved stored)
        (Resolved \<lparr>results = [file1, file2], totalSize = 2\<rparr>) (Rejected (ApiError None))
        (\<lambda>i. ''now'') (run combineData handleTaskData [Frame 0 frame2, AnimationFrame] started))
   \<and> taskList (loadChatSession ''r1'' (Some ''history'') (Resolved stored)
        (Resolved \<lparr>results = [], totalSize = 0\<rparr>) (Rejected (ApiError None))
        (\<lambda>i. ''now'') (run combineData handleTaskData [Frame 0 frame2, AnimationFrame] started)) = []
   \<and> \<not> showAction (loadChatSession ''r1'' (Some ''history'') (Resolved stored)
        (Resolved \<lparr>results = [], totalSize = 0\<rparr>) (Rejected (ApiError None))
        (\<lambda>i. ''now'') (run combineData handleTaskData [Frame 0 frame2, AnimationFrame] started))"
proof -
  have a: "sr_success stored" and b: "sr_data stored \<noteq> None" by (simp_all add: stored_def)
  have ids: "map taskId (map (\<lambda>(file, index). fileTask ''r1'' (\<lambda>i. ''now'') file index)
              (zip [file1, file2] [0..<length [file1, file2]])) = [''r1-0'', ''r1-1'']"
    by code_simp
  note t2 = restore_from_history [OF a b, of "\<lparr>results = [file1, file2], totalSize = 2\<rparr>" "''r1''"
      "Rejected (ApiError None)" "\<lambda>i. ''now''"
      "run combineData handleTaskData [Frame 0 frame2, AnimationFrame] started"]
  note t0 = restore_from_history [OF a b, of "\<lparr>results = [], totalSize = 0\<rparr>" "''r1''"
      "Rejected (ApiError None)" "\<lambda>i. ''now''"
      "run combineData handleTaskData [Frame 0 frame2, AnimationFrame] started"]
  show ?thesis using t2 t0 a ids by (simp del: run.simps)
qed


end
